theory Spec2Isabelle
  imports Complex_Main "HOL-Library.Word"
begin

section \<open>Audio utility functions of \<^verbatim>\<open>src/index.tsx\<close>\<close>

text \<open>
  A \<^verbatim>\<open>Uint8Array\<close> is a list of 8-bit words, an \<^verbatim>\<open>Int16Array\<close> a list of 16-bit words.
  The "binary strings" that \<^verbatim>\<open>btoa\<close> and \<^verbatim>\<open>atob\<close> exchange hold one code unit in
  \<open>0..255\<close> per byte, which is what a HOL \<open>char\<close> is. A JavaScript string with a code
  unit above 255 is rejected by both functions; such strings have no counterpart here.
\<close>

type_synonym byte = "8 word"
type_synonym int16 = "16 word"

datatype error = InvalidCharacterError | RangeError | NotSupportedError | TypeError

subsection \<open>The platform's \<^verbatim>\<open>btoa\<close> and \<^verbatim>\<open>atob\<close>\<close>

text \<open>
  Both are browser built-ins, written here after the WHATWG "forgiving-base64" encode and
  decode algorithms. The alphabet is \<open>A..Z a..z 0..9 + /\<close>.
\<close>

definition b64char :: "nat \<Rightarrow> char" where
  "b64char n =
     (if n < 26 then char_of (65 + n)
      else if n < 52 then char_of (71 + n)
      else if n < 62 then char_of (n - 4)
      else if n = 62 then CHR ''+''
      else CHR ''/'')"

definition b64index :: "char \<Rightarrow> nat option" where
  "b64index c =
     (let k = (of_char c :: nat) in
      if 65 \<le> k \<and> k \<le> 90 then Some (k - 65)
      else if 97 \<le> k \<and> k \<le> 122 then Some (k - 71)
      else if 48 \<le> k \<and> k \<le> 57 then Some (k + 4)
      else if k = 43 then Some 62
      else if k = 47 then Some 63
      else None)"

text \<open>Three bytes make four 6-bit groups; a last group of one or two bytes makes two or three.\<close>

fun bytesToSextets :: "nat list \<Rightarrow> nat list" where
  "bytesToSextets (a # b # c # rest) =
     [a div 4, (a mod 4) * 16 + b div 16, (b mod 16) * 4 + c div 64, c mod 64]
       @ bytesToSextets rest"
| "bytesToSextets [a, b] = [a div 4, (a mod 4) * 16 + b div 16, (b mod 16) * 4]"
| "bytesToSextets [a] = [a div 4, (a mod 4) * 16]"
| "bytesToSextets [] = []"

definition padding :: "nat \<Rightarrow> string" where
  "padding n = replicate ((3 - n mod 3) mod 3) (CHR ''='')"

definition btoa :: "string \<Rightarrow> string" where
  "btoa s = map b64char (bytesToSextets (map of_char s)) @ padding (length s)"

definition isAsciiWhitespace :: "char \<Rightarrow> bool" where
  "isAsciiWhitespace c = ((of_char c :: nat) \<in> {9, 10, 12, 13, 32})"

text \<open>
  Step 2 of the decoder: when the length is a multiple of four, one or two trailing
  \<open>=\<close> are removed.
\<close>

definition removePadding :: "string \<Rightarrow> string" where
  "removePadding s =
     (if length s mod 4 = 0 then
        (if 2 \<le> length s \<and> last s = CHR ''='' \<and> last (butlast s) = CHR ''=''
           then butlast (butlast s)
         else if 1 \<le> length s \<and> last s = CHR ''='' then butlast s
         else s)
      else s)"

text \<open>
  Four 6-bit groups make three bytes; of a last group of two or three, the low four or
  two bits are discarded. A single leftover group cannot occur: the decoder has failed
  before on a length of \<open>1\<close> modulo \<open>4\<close>.
\<close>

fun sextetsToBytes :: "nat list \<Rightarrow> nat list" where
  "sextetsToBytes (a # b # c # d # rest) =
     [a * 4 + b div 16, (b mod 16) * 16 + c div 4, (c mod 4) * 64 + d]
       @ sextetsToBytes rest"
| "sextetsToBytes [a, b, c] = [a * 4 + b div 16, (b mod 16) * 16 + c div 4]"
| "sextetsToBytes [a, b] = [a * 4 + b div 16]"
| "sextetsToBytes [a] = []"
| "sextetsToBytes [] = []"

definition atob :: "string \<Rightarrow> error + string" where
  "atob s =
     (let d = removePadding (filter (\<lambda>c. \<not> isAsciiWhitespace c) s) in
      if length d mod 4 = 1 then Inl InvalidCharacterError
      else if list_ex (\<lambda>c. b64index c = None) d then Inl InvalidCharacterError
      else Inr (map char_of (sextetsToBytes (map (\<lambda>c. the (b64index c)) d))))"

subsection \<open>\<^verbatim>\<open>encode\<close> and \<^verbatim>\<open>decode\<close>\<close>

text \<open>
  \<^verbatim>\<open>encode\<close> appends \<^verbatim>\<open>String.fromCharCode(bytes[i])\<close> to \<^verbatim>\<open>binary\<close> for each index and
  hands the string to \<^verbatim>\<open>btoa\<close>; \<^verbatim>\<open>decode\<close> reads \<^verbatim>\<open>charCodeAt(i)\<close> of what \<^verbatim>\<open>atob\<close>
  returns into a fresh \<^verbatim>\<open>Uint8Array\<close>. An exception of \<^verbatim>\<open>atob\<close> leaves \<^verbatim>\<open>decode\<close>.
\<close>

definition fromCharCode :: "byte \<Rightarrow> char" where
  "fromCharCode b = char_of (unat b)"

definition charCode :: "char \<Rightarrow> byte" where
  "charCode c = of_nat (of_char c)"

definition encode :: "byte list \<Rightarrow> string" where
  "encode bytes = btoa (foldl (\<lambda>binary b. binary @ [fromCharCode b]) [] bytes)"

definition decode :: "string \<Rightarrow> error + byte list" where
  "decode base64 =
     (case atob base64 of
        Inl e \<Rightarrow> Inl e
      | Inr binaryString \<Rightarrow> Inr (map charCode binaryString))"

subsection \<open>\<^verbatim>\<open>createBlob\<close> and \<^verbatim>\<open>decodeAudioData\<close>\<close>

text \<open>
  Samples are \<^verbatim>\<open>Float32Array\<close> entries, modelled as reals. Every finite float is a real,
  and on finite inputs the two arithmetic steps of this code are exact in floating point:
  \<^verbatim>\<open>data[i] * 32768\<close> scales by a power of two, and \<^verbatim>\<open>dataInt16[k] / 32768.0\<close> has at
  most sixteen significant bits. Storing a number into an \<^verbatim>\<open>Int16Array\<close> applies
  ECMAScript's ToInt16: truncate towards zero, then reduce modulo \<open>2^16\<close> into the
  signed range, which is what \<open>word_of_int\<close> followed by \<open>sint\<close> computes.
\<close>

definition toInt16 :: "real \<Rightarrow> int16" where
  "toInt16 x = word_of_int (if 0 \<le> x then \<lfloor>x\<rfloor> else \<lceil>x\<rceil>)"

text \<open>
  \<^verbatim>\<open>new Uint8Array(int16.buffer)\<close> and \<^verbatim>\<open>new Int16Array(data.buffer)\<close> are views of the
  same bytes, low byte first.
\<close>

definition int16Bytes :: "int16 \<Rightarrow> byte list" where
  "int16Bytes w = [of_nat (unat w mod 256), of_nat (unat w div 256)]"

fun bytesInt16 :: "byte list \<Rightarrow> int16 list" where
  "bytesInt16 (lo # hi # rest) = of_nat (unat lo + 256 * unat hi) # bytesInt16 rest"
| "bytesInt16 [lo] = []"
| "bytesInt16 [] = []"

record Blob =
  data :: string
  mimeType :: string

definition createBlob :: "real list \<Rightarrow> Blob" where
  "createBlob samples =
     (let int16 = map (\<lambda>x. toInt16 (x * 32768)) samples in
      \<lparr> data = encode (concat (map int16Bytes int16)),
        mimeType = ''audio/pcm;rate=16000'' \<rparr>)"

record AudioBuffer =
  numberOfChannels :: nat
  frameCount :: nat
  sampleRate :: nat
  channelData :: "real list list"

definition duration :: "AudioBuffer \<Rightarrow> real" where
  "duration b = real (frameCount b) / real (sampleRate b)"

text \<open>
  \<^verbatim>\<open>new Int16Array(data.buffer)\<close> throws a RangeError on a buffer of odd byte length, and
  \<^verbatim>\<open>ctx.createBuffer\<close> a NotSupportedError when asked for no channel or no frame. (Its
  upper limits on channels and rate are left out: the one caller passes \<open>1\<close> and
  \<open>24000\<close>.) The buffer has \<open>\<lfloor>length / numChannels\<rfloor>\<close> frames, and the loops fill
  \<^verbatim>\<open>channelData[i]\<close> with \<^verbatim>\<open>dataInt16[i * numChannels + channel] / 32768.0\<close>.
\<close>

definition decodeAudioData :: "byte list \<Rightarrow> nat \<Rightarrow> nat \<Rightarrow> error + AudioBuffer" where
  "decodeAudioData bytes rate numChannels =
     (if odd (length bytes) then Inl RangeError
      else
        let dataInt16 = bytesInt16 bytes;
            frames = length dataInt16 div numChannels
        in if numChannels = 0 \<or> frames = 0 then Inl NotSupportedError
           else Inr \<lparr> numberOfChannels = numChannels, frameCount = frames, sampleRate = rate,
                      channelData =
                        map (\<lambda>channel.
                               map (\<lambda>i. real_of_int (sint (dataInt16 ! (i * numChannels + channel)))
                                            / 32768)
                                   [0..<frames])
                            [0..<numChannels] \<rparr>)"

text \<open>Line 154: \<^verbatim>\<open>decodeAudioData(decode(base64Audio), outputAudioContext, 24000, 1)\<close>.\<close>

definition decodeInbound :: "string \<Rightarrow> error + AudioBuffer" where
  "decodeInbound base64Audio =
     (case decode base64Audio of
        Inl e \<Rightarrow> Inl e
      | Inr bytes \<Rightarrow> decodeAudioData bytes 24000 1)"

text \<open>
  The round trip of a captured chunk: \<^verbatim>\<open>createBlob\<close>, then the inbound decoding of its
  payload, then \<^verbatim>\<open>getChannelData(0)\<close>.
\<close>

definition roundTrip :: "real list \<Rightarrow> error + real list" where
  "roundTrip samples =
     (case decodeInbound (data (createBlob samples)) of
        Inl e \<Rightarrow> Inl e
      | Inr audioBuffer \<Rightarrow> Inr (channelData audioBuffer ! 0))"

definition withinQuantisation :: "real list \<Rightarrow> real list \<Rightarrow> bool" where
  "withinQuantisation samples decoded =
     list_all2 (\<lambda>x y. \<bar>y - x\<bar> \<le> 1 / 32768) samples decoded"

section \<open>The component's state and its callbacks\<close>

datatype Speaker = user | ai

record Transcript =
  speaker :: Speaker
  text' :: string

text \<open>
  Inbound messages, with the optional fields the handler reads. A transcription's
  \<^verbatim>\<open>text\<close> is optional in the SDK's type; \<^verbatim>\<open>+=\<close> of \<^verbatim>\<open>undefined\<close> appends the
  string \<^verbatim>\<open>undefined\<close>. An absent \<^verbatim>\<open>data\<close> of an inline blob is the empty string
  here: the handler only tests it for truthiness, where both are false.
\<close>

datatype Transcription = Transcription (transcriptionText: "string option")

record Part =
  inlineData :: "Blob option"

record Content =
  parts :: "Part list option"

record ServerContent =
  outputTranscription :: "Transcription option"
  inputTranscription :: "Transcription option"
  turnComplete :: bool
  modelTurn :: "Content option"
  interrupted :: bool

record LiveServerMessage =
  serverContent :: "ServerContent option"

text \<open>
  Objects of the platform (promises, streams, audio contexts and nodes) are handles;
  the calls the component makes on them are recorded, in order.
\<close>

type_synonym handle = nat

datatype effect =
    SourceStart handle real
  | SourceStop handle
  | SessionClose handle
  | TracksStop handle
  | NodeDisconnect handle
  | ContextClose handle
  | SendRealtimeInput handle Blob

record AudioBufferSourceNode =
  node :: handle
  buffer :: AudioBuffer
  startedAt :: real

text \<open>
  The React state (\<open>isSessionActive\<close>, \<open>transcripts\<close>, \<open>status\<close>) and the refs.
  \<open>sourcesRef\<close> is a \<^verbatim>\<open>Set\<close> of distinct node objects, kept in insertion order;
  \<open>nodesCreated\<close> numbers the nodes that \<^verbatim>\<open>createBufferSource\<close> returns. A state
  setter takes effect at its call, also \<^verbatim>\<open>setTranscripts\<close> with its updater function.
\<close>

record App =
  isSessionActive :: bool
  transcripts :: "Transcript list"
  status :: string
  currentInputRef :: string
  currentOutputRef :: string
  sessionPromiseRef :: "handle option"
  mediaStreamRef :: "handle option"
  inputAudioContextRef :: "handle option"
  outputAudioContextRef :: "handle option"
  scriptProcessorRef :: "handle option"
  mediaStreamSourceRef :: "handle option"
  nextStartTimeRef :: real
  sourcesRef :: "AudioBufferSourceNode list"
  nodesCreated :: nat
  effects :: "effect list"

definition initialApp :: App where
  "initialApp =
     \<lparr> isSessionActive = False, transcripts = [],
       status = ''Welcome to kaitalk! Select a voice and press Start.'',
       currentInputRef = [], currentOutputRef = [],
       sessionPromiseRef = None, mediaStreamRef = None, inputAudioContextRef = None,
       outputAudioContextRef = None, scriptProcessorRef = None, mediaStreamSourceRef = None,
       nextStartTimeRef = 0, sourcesRef = [], nodesCreated = 0, effects = [] \<rparr>"

subsection \<open>\<^verbatim>\<open>stopSession\<close>\<close>

text \<open>
  \<open>active\<close> is the value of \<open>isSessionActive\<close> that the closure captured at the render
  which created it; it can differ from the current state. Every call on a ref goes
  through \<^verbatim>\<open>?.\<close> or a null test, so a null ref contributes no call.
\<close>

definition release :: "(handle \<Rightarrow> effect) \<Rightarrow> handle option \<Rightarrow> effect list" where
  "release call ref = (case ref of None \<Rightarrow> [] | Some h \<Rightarrow> [call h])"

definition stopSession :: "bool \<Rightarrow> App \<Rightarrow> App" where
  "stopSession active s =
     (if \<not> active \<and> sessionPromiseRef s = None then s
      else s \<lparr> effects := effects s
                   @ release SessionClose (sessionPromiseRef s)
                   @ release TracksStop (mediaStreamRef s)
                   @ release NodeDisconnect (scriptProcessorRef s)
                   @ release NodeDisconnect (mediaStreamSourceRef s)
                   @ release ContextClose (inputAudioContextRef s)
                   @ release ContextClose (outputAudioContextRef s)
                   @ map (\<lambda>source. SourceStop (node source)) (sourcesRef s),
               sessionPromiseRef := None, mediaStreamRef := None,
               scriptProcessorRef := None, mediaStreamSourceRef := None,
               inputAudioContextRef := None, outputAudioContextRef := None,
               sourcesRef := [],
               isSessionActive := False,
               status := ''Session stopped. Press Start to talk again.'' \<rparr>)"

subsection \<open>\<^verbatim>\<open>startSession\<close> and \<^verbatim>\<open>onopen\<close>\<close>

text \<open>
  What the platform answers: whether \<^verbatim>\<open>new GoogleGenAI\<close> returns, the handle of the new
  output \<^verbatim>\<open>AudioContext\<close> and of the promise of \<^verbatim>\<open>ai.live.connect\<close>, \<open>None\<close> where
  the call throws. A throw lands in the \<^verbatim>\<open>catch\<close> block.
\<close>

record StartEnv =
  genAI :: bool
  newOutputContext :: "handle option"
  connect :: "handle option"

definition startFailed :: "App \<Rightarrow> App" where
  "startFailed s =
     s \<lparr> status := ''Failed to start. Check permissions and console.'',
         isSessionActive := False \<rparr>"

definition startSession :: "StartEnv \<Rightarrow> App \<Rightarrow> App" where
  "startSession env s =
     (let s1 = s \<lparr> status := ''Connecting...'', transcripts := [],
                    currentInputRef := [], currentOutputRef := [] \<rparr>
      in if \<not> genAI env then startFailed s1
         else case newOutputContext env of
           None \<Rightarrow> startFailed s1
         | Some ctx \<Rightarrow>
             let s2 = s1 \<lparr> outputAudioContextRef := Some ctx, nextStartTimeRef := 0,
                            sourcesRef := [] \<rparr>
             in case connect env of
                  None \<Rightarrow> startFailed s2
                | Some p \<Rightarrow> (s2 \<lparr> sessionPromiseRef := Some p \<rparr>))"

record OpenEnv =
  userMedia :: "handle option"
  newInputContext :: handle
  newStreamSource :: handle
  newScriptProcessor :: handle

definition onopen :: "OpenEnv \<Rightarrow> App \<Rightarrow> App" where
  "onopen env s =
     (let s1 = s \<lparr> status := ''Microphone access...'' \<rparr>
      in case userMedia env of
           None \<Rightarrow> s1
         | Some stream \<Rightarrow>
             s1 \<lparr> mediaStreamRef := Some stream,
                  inputAudioContextRef := Some (newInputContext env),
                  mediaStreamSourceRef := Some (newStreamSource env),
                  scriptProcessorRef := Some (newScriptProcessor env),
                  isSessionActive := True,
                  status := ''Listening... Speak now!'' \<rparr>)"

definition onaudioprocess :: "real list \<Rightarrow> App \<Rightarrow> App" where
  "onaudioprocess inputData s =
     (let pcmBlob = createBlob inputData
      in s \<lparr> effects := effects s
                 @ release (\<lambda>p. SendRealtimeInput p pcmBlob) (sessionPromiseRef s) \<rparr>)"

subsection \<open>\<^verbatim>\<open>onmessage\<close>\<close>

text \<open>The updater passed to \<^verbatim>\<open>setTranscripts\<close>, the same for both speakers.\<close>

definition updateTranscripts :: "Speaker \<Rightarrow> string \<Rightarrow> Transcript list \<Rightarrow> Transcript list" where
  "updateTranscripts who current prev =
     (if prev \<noteq> [] \<and> speaker (last prev) = who
        then butlast prev @ [\<lparr> speaker = who, text' = current \<rparr>]
      else prev @ [\<lparr> speaker = who, text' = current \<rparr>])"

definition appended :: "Transcription \<Rightarrow> string" where
  "appended t = (case transcriptionText t of None \<Rightarrow> ''undefined'' | Some fragment \<Rightarrow> fragment)"

text \<open>Lines 122 to 142: an output transcription wins over an input transcription.\<close>

definition handleTranscription :: "LiveServerMessage \<Rightarrow> App \<Rightarrow> App" where
  "handleTranscription message s =
     (case serverContent message of
        None \<Rightarrow> s
      | Some content \<Rightarrow>
          (case outputTranscription content of
             Some t \<Rightarrow>
               let current = currentOutputRef s @ appended t
               in s \<lparr> currentOutputRef := current,
                      transcripts := updateTranscripts ai current (transcripts s) \<rparr>
           | None \<Rightarrow>
               (case inputTranscription content of
                  Some t \<Rightarrow>
                    let current = currentInputRef s @ appended t
                    in s \<lparr> currentInputRef := current,
                           transcripts := updateTranscripts user current (transcripts s) \<rparr>
                | None \<Rightarrow> s)))"

text \<open>Lines 144 to 147.\<close>

definition handleTurnComplete :: "LiveServerMessage \<Rightarrow> App \<Rightarrow> App" where
  "handleTurnComplete message s =
     (case serverContent message of
        None \<Rightarrow> s
      | Some content \<Rightarrow>
          if turnComplete content then s \<lparr> currentInputRef := [], currentOutputRef := [] \<rparr>
          else s)"

text \<open>
  Line 149, \<^verbatim>\<open>message.serverContent?.modelTurn?.parts[0]?.inlineData?.data\<close>: a model
  turn without \<^verbatim>\<open>parts\<close> is a TypeError, everything else absent gives \<^verbatim>\<open>undefined\<close>,
  which is the empty string here.
\<close>

definition base64AudioOf :: "LiveServerMessage \<Rightarrow> error + string" where
  "base64AudioOf message =
     (case serverContent message of
        None \<Rightarrow> Inr []
      | Some content \<Rightarrow>
          (case modelTurn content of
             None \<Rightarrow> Inr []
           | Some turn \<Rightarrow>
               (case parts turn of
                  None \<Rightarrow> Inl TypeError
                | Some [] \<Rightarrow> Inr []
                | Some (part # _) \<Rightarrow>
                    (case inlineData part of
                       None \<Rightarrow> Inr []
                     | Some blob \<Rightarrow> Inr (data blob)))))"

text \<open>
  Lines 150 to 163. \<open>now\<close> is \<^verbatim>\<open>outputAudioContext.currentTime\<close> as read at line 152.
  Times are JavaScript numbers, taken as reals: the handler compares two of them, takes
  their maximum and adds a duration. The cursor is clamped before the payload is decoded,
  so an exception of \<^verbatim>\<open>decode\<close> or \<^verbatim>\<open>decodeAudioData\<close> leaves the handler with the
  clamped cursor. The \<^verbatim>\<open>await\<close> of line 154 is on a function that has no \<^verbatim>\<open>await\<close> of
  its own, and the handler is taken as one step.
\<close>

definition scheduleAudio :: "real \<Rightarrow> string \<Rightarrow> App \<Rightarrow> App \<times> error option" where
  "scheduleAudio now base64Audio s =
     (if base64Audio \<noteq> [] \<and> outputAudioContextRef s \<noteq> None then
        let s1 = s \<lparr> nextStartTimeRef := max (nextStartTimeRef s) now \<rparr>
        in case decodeInbound base64Audio of
             Inl e \<Rightarrow> (s1, Some e)
           | Inr audioBuffer \<Rightarrow>
               let source = \<lparr> node = nodesCreated s1, buffer = audioBuffer,
                               startedAt = nextStartTimeRef s1 \<rparr>
               in (s1 \<lparr> nodesCreated := Suc (nodesCreated s1),
                        effects := effects s1 @ [SourceStart (node source) (nextStartTimeRef s1)],
                        nextStartTimeRef := nextStartTimeRef s1 + duration audioBuffer,
                        sourcesRef := sourcesRef s1 @ [source] \<rparr>,
                   None)
      else (s, None))"

text \<open>Lines 165 to 171.\<close>

definition handleInterrupted :: "LiveServerMessage \<Rightarrow> App \<Rightarrow> App" where
  "handleInterrupted message s =
     (case serverContent message of
        None \<Rightarrow> s
      | Some content \<Rightarrow>
          if interrupted content then
            s \<lparr> effects := effects s @ map (\<lambda>source. SourceStop (node source)) (sourcesRef s),
                sourcesRef := [],
                nextStartTimeRef := 0 \<rparr>
          else s)"

text \<open>
  The handler returns the state it leaves behind and the exception it was left with, if
  any: what it has written to the refs before a throw stays written.
\<close>

definition onmessage :: "real \<Rightarrow> LiveServerMessage \<Rightarrow> App \<Rightarrow> App \<times> error option" where
  "onmessage now message s =
     (let s1 = handleTurnComplete message (handleTranscription message s)
      in case base64AudioOf message of
           Inl e \<Rightarrow> (s1, Some e)
         | Inr base64Audio \<Rightarrow>
             (case scheduleAudio now base64Audio s1 of
                (s2, Some e) \<Rightarrow> (s2, Some e)
              | (s2, None) \<Rightarrow> (handleInterrupted message s2, None)))"

text \<open>The listener of line 159, run when the node \<open>h\<close> has played to its end.\<close>

definition onended :: "handle \<Rightarrow> App \<Rightarrow> App" where
  "onended h s = s \<lparr> sourcesRef := filter (\<lambda>source. node source \<noteq> h) (sourcesRef s) \<rparr>"

definition onerror :: "bool \<Rightarrow> string \<Rightarrow> App \<Rightarrow> App" where
  "onerror active msg s =
     stopSession active (s \<lparr> status := ''Error: '' @ msg @ ''. Please try again.'' \<rparr>)"

definition onclose :: "bool \<Rightarrow> App \<Rightarrow> App" where
  "onclose active s = stopSession active s"

definition handleToggleSession :: "StartEnv \<Rightarrow> App \<Rightarrow> App" where
  "handleToggleSession env s =
     (if isSessionActive s then stopSession (isSessionActive s) s else startSession env s)"

text \<open>
  Messages are handled one after the other, in arrival order; an exception that leaves
  one call is not seen by the next.
\<close>

fun processMessages :: "(real \<times> LiveServerMessage) list \<Rightarrow> App \<Rightarrow> App" where
  "processMessages [] s = s"
| "processMessages ((now, message) # rest) s =
     processMessages rest (fst (onmessage now message s))"

subsection \<open>Message kinds and events\<close>

text \<open>
  The four kinds of inbound message, each carrying one thing: an audio payload, a
  transcription fragment of one speaker, the turn-complete flag, the interrupted flag.
\<close>

definition noContent :: ServerContent where
  "noContent =
     \<lparr> outputTranscription = None, inputTranscription = None, turnComplete = False,
       modelTurn = None, interrupted = False \<rparr>"

definition audioDelta :: "string \<Rightarrow> LiveServerMessage" where
  "audioDelta base64Audio =
     \<lparr> serverContent = Some (noContent
         \<lparr> modelTurn := Some \<lparr> parts = Some [\<lparr> inlineData =
             Some \<lparr> data = base64Audio, mimeType = ''audio/pcm;rate=24000'' \<rparr> \<rparr>] \<rparr> \<rparr>) \<rparr>"

definition transcriptionDelta :: "Speaker \<Rightarrow> string \<Rightarrow> LiveServerMessage" where
  "transcriptionDelta who fragment =
     \<lparr> serverContent = Some
         (case who of
            user \<Rightarrow> noContent \<lparr> inputTranscription := Some (Transcription (Some fragment)) \<rparr>
          | ai \<Rightarrow> noContent \<lparr> outputTranscription := Some (Transcription (Some fragment)) \<rparr>) \<rparr>"

definition turnCompleteMessage :: LiveServerMessage where
  "turnCompleteMessage = \<lparr> serverContent = Some (noContent \<lparr> turnComplete := True \<rparr>) \<rparr>"

definition interruptedMessage :: LiveServerMessage where
  "interruptedMessage = \<lparr> serverContent = Some (noContent \<lparr> interrupted := True \<rparr>) \<rparr>"

text \<open>Everything that can happen to the component, and the callback each event runs.\<close>

datatype event =
    Start StartEnv
  | Open OpenEnv
  | Message real LiveServerMessage
  | Ended handle
  | AudioProcess "real list"
  | Error bool string
  | Close bool
  | Stop bool
  | Toggle StartEnv

fun step :: "event \<Rightarrow> App \<Rightarrow> App" where
  "step (Start env) s = startSession env s"
| "step (Open env) s = onopen env s"
| "step (Message now message) s = fst (onmessage now message s)"
| "step (Ended h) s = onended h s"
| "step (AudioProcess inputData) s = onaudioprocess inputData s"
| "step (Error active msg) s = onerror active msg s"
| "step (Close active) s = onclose active s"
| "step (Stop active) s = stopSession active s"
| "step (Toggle env) s = handleToggleSession env s"

fun run :: "event list \<Rightarrow> App \<Rightarrow> App" where
  "run [] s = s"
| "run (e # es) s = run es (step e s)"

text \<open>No two neighbouring entries of a transcript have the same speaker.\<close>

definition alternating :: "Transcript list \<Rightarrow> bool" where
  "alternating ts = distinct_adj (map speaker ts)"

text \<open>
  Two states to try things on: a session whose \<^verbatim>\<open>startSession\<close> has run and whose
  connection is still opening, and the same session once \<^verbatim>\<open>onopen\<close> has finished.
\<close>

definition sessionConnecting :: App where
  "sessionConnecting =
     startSession \<lparr> genAI = True, newOutputContext = Some 1, connect = Some 2 \<rparr> initialApp"

definition sessionActive :: App where
  "sessionActive =
     onopen \<lparr> userMedia = Some 3, newInputContext = 4, newStreamSource = 5,
              newScriptProcessor = 6 \<rparr> sessionConnecting"

text \<open>
  A run of audio-delta messages, given as the clock reading and the payload of each, and
  the playback units that buffers \<open>bufs\<close> make when they are laid end to end from the
  time \<open>t\<close>, in nodes numbered from \<open>k\<close>.
\<close>

definition audioDeltas :: "(real \<times> string) list \<Rightarrow> (real \<times> LiveServerMessage) list" where
  "audioDeltas frames = map (\<lambda>(now, base64Audio). (now, audioDelta base64Audio)) frames"

fun endToEnd :: "real \<Rightarrow> handle \<Rightarrow> AudioBuffer list \<Rightarrow> AudioBufferSourceNode list" where
  "endToEnd t k [] = []"
| "endToEnd t k (b # bufs) =
     \<lparr> node = k, buffer = b, startedAt = t \<rparr> # endToEnd (t + duration b) (Suc k) bufs"

text \<open>The active session after one audio-delta message, handled at clock time \<open>0\<close>.\<close>

definition sessionPlaying :: App where
  "sessionPlaying = fst (onmessage 0 (audioDelta ''AIA='') sessionActive)"

text \<open>Line 165, \<^verbatim>\<open>message.serverContent?.interrupted\<close>, as a test on the message.\<close>

definition interruptedFlag :: "LiveServerMessage \<Rightarrow> bool" where
  "interruptedFlag message =
     (case serverContent message of None \<Rightarrow> False | Some content \<Rightarrow> interrupted content)"

text \<open>Every resource handle is null and the live set is empty.\<close>

definition released :: "App \<Rightarrow> bool" where
  "released s \<longleftrightarrow>
     sessionPromiseRef s = None \<and> mediaStreamRef s = None \<and> scriptProcessorRef s = None \<and>
     mediaStreamSourceRef s = None \<and> inputAudioContextRef s = None \<and>
     outputAudioContextRef s = None \<and> sourcesRef s = []"

section \<open>Base64 round trip\<close>

lemma b64index_b64char: "n < 64 \<Longrightarrow> b64index (b64char n) = Some n"
  by (auto simp: b64index_def b64char_def Let_def)

lemma b64char_not_pad: "n < 64 \<Longrightarrow> b64char n \<noteq> CHR ''=''"
  using b64index_b64char [of n] by (auto simp: b64index_def)

lemma b64char_not_space: "n < 64 \<Longrightarrow> \<not> isAsciiWhitespace (b64char n)"
  using b64index_b64char [of n]
  by (auto simp: b64index_def isAsciiWhitespace_def Let_def split: if_splits)

lemma div_add_small: "r < k \<Longrightarrow> (q * k + r) div k = (q::nat)"
  by simp
lemma mod_add_small: "r < k \<Longrightarrow> (q * k + r) mod k = (r::nat)"
  by simp
lemma byte_hi4: "b < 256 \<Longrightarrow> b div 16 < (16::nat)"
  by (simp add: less_mult_imp_div_less)
lemma byte_hi2: "c < 256 \<Longrightarrow> c div 64 < (4::nat)"
  by (simp add: less_mult_imp_div_less)
lemma byte_hi6: "a < 256 \<Longrightarrow> a div 4 < (64::nat)"
  by (simp add: less_mult_imp_div_less)
lemma sextet2_bound: "b < 256 \<Longrightarrow> (a mod 4) * 16 + b div 16 < (64::nat)"
  using byte_hi4 [of b] mod_less_divisor [of 4 a] by linarith
lemma sextet3_bound: "c < 256 \<Longrightarrow> (b mod 16) * 4 + c div 64 < (64::nat)"
  using byte_hi2 [of c] mod_less_divisor [of 16 b] by linarith
lemma sextet3_bound': "(b mod 16) * 4 < (64::nat)"
  using mod_less_divisor [of 16 b] by linarith
lemma sextet2_bound': "(a mod 4) * 16 < (64::nat)"
  using mod_less_divisor [of 4 a] by linarith

lemma bytesToSextets_bound:
  "\<forall>x \<in> set (bytesToSextets bs). x < 64" if "\<forall>b \<in> set bs. b < 256"
  using that
  by (induction bs rule: bytesToSextets.induct)
     (simp_all add: byte_hi6 sextet2_bound sextet3_bound sextet3_bound' sextet2_bound')

lemma sextets_roundtrip:
  "sextetsToBytes (bytesToSextets bs) = bs" if "\<forall>b \<in> set bs. b < 256"
  using that
  by (induction bs rule: bytesToSextets.induct)
     (simp_all add: div_add_small mod_add_small byte_hi4 byte_hi2)

lemma sextets_length:
  "(length bs mod 3 = 0 \<longrightarrow> length (bytesToSextets bs) mod 4 = 0) \<and>
   (length bs mod 3 = 1 \<longrightarrow> length (bytesToSextets bs) mod 4 = 2) \<and>
   (length bs mod 3 = 2 \<longrightarrow> length (bytesToSextets bs) mod 4 = 3)"
  by (induction bs rule: bytesToSextets.induct) (simp_all add: mod_Suc)

lemma sextets_nonempty: "bs \<noteq> [] \<Longrightarrow> bytesToSextets bs \<noteq> []"
  by (induction bs rule: bytesToSextets.induct) simp_all

lemma removePadding_body:
  assumes "\<forall>c \<in> set body. c \<noteq> CHR ''=''"
    and "length (body @ pad) mod 4 = 0"
    and "pad = [] \<or> pad = [CHR ''=''] \<and> body \<noteq> [] \<or> pad = [CHR ''='', CHR ''='']"
  shows "removePadding (body @ pad) = body"
proof -
  consider "pad = []" | "pad = [CHR ''='']" "body \<noteq> []" | "pad = [CHR ''='', CHR ''='']"
    using assms(3) by blast
  then show ?thesis
  proof cases
    case 1
    show ?thesis
    proof (cases "body = []")
      case True
      with 1 show ?thesis by (simp add: removePadding_def)
    next
      case False
      then have "last body \<noteq> CHR ''=''" using assms(1) last_in_set by blast
      with 1 False show ?thesis by (simp add: removePadding_def)
    qed
  next
    case 2
    then have "last body \<noteq> CHR ''=''" using assms(1) last_in_set by blast
    with 2 assms(2) show ?thesis by (simp add: removePadding_def butlast_append)
  next
    case 3
    with assms(2) show ?thesis by (simp add: removePadding_def butlast_append)
  qed
qed

lemma of_char_byte: "(of_char c :: nat) < 256"
  by (cases c) simp

lemma atob_btoa: "atob (btoa s) = Inr s"
proof -
  define bs where "bs = map (of_char :: char \<Rightarrow> nat) s"
  define sx where "sx = bytesToSextets bs"
  define body where "body = map b64char sx"
  define pad where "pad = padding (length s)"
  have bs: "\<forall>b \<in> set bs. b < 256" by (auto simp: bs_def)
  then have sx: "\<forall>x \<in> set sx. x < 64" unfolding sx_def by (rule bytesToSextets_bound)
  have len: "length bs = length s" by (simp add: bs_def)
  have m3: "length s mod 3 = 0 \<or> length s mod 3 = 1 \<or> length s mod 3 = 2" by linarith
  have nopad: "\<forall>c \<in> set body. c \<noteq> CHR ''=''"
    using sx by (auto simp: body_def b64char_not_pad)
  have nospace: "\<forall>c \<in> set (body @ pad). \<not> isAsciiWhitespace c"
  proof -
    have "\<forall>c \<in> set body. \<not> isAsciiWhitespace c"
      using sx by (auto simp: body_def b64char_not_space)
    moreover have "\<forall>c \<in> set pad. \<not> isAsciiWhitespace c"
      by (auto simp: pad_def padding_def isAsciiWhitespace_def)
    ultimately show ?thesis by auto
  qed
  have lenbody: "length body = length sx" by (simp add: body_def)
  have total: "length (body @ pad) mod 4 = 0"
    using m3 sextets_length [of bs] by (auto simp: lenbody sx_def len pad_def padding_def mod_Suc)
  have shape: "pad = [] \<or> pad = [CHR ''=''] \<and> body \<noteq> [] \<or> pad = [CHR ''='', CHR ''='']"
  proof -
    from m3 show ?thesis
    proof (elim disjE)
      assume "length s mod 3 = 0" then show ?thesis by (simp add: pad_def padding_def)
    next
      assume "length s mod 3 = 1" then show ?thesis
        by (simp add: pad_def padding_def numeral_2_eq_2)
    next
      assume h: "length s mod 3 = 2"
      then have "s \<noteq> []" by auto
      then have "body \<noteq> []" by (simp add: body_def sx_def bs_def sextets_nonempty)
      with h show ?thesis by (simp add: pad_def padding_def)
    qed
  qed
  have filt: "filter (\<lambda>c. \<not> isAsciiWhitespace c) (body @ pad) = body @ pad"
    using nospace by (simp only: filter_id_conv) 
  have rem: "removePadding (body @ pad) = body"
    using nopad total shape by (rule removePadding_body)
  have not1: "length body mod 4 \<noteq> 1"
    using m3 sextets_length [of bs] by (auto simp: lenbody sx_def len)
  have noinv: "\<not> list_ex (\<lambda>c. b64index c = None) body"
    using sx by (auto simp: body_def b64index_b64char list_ex_iff)
  have idx: "map (\<lambda>c. the (b64index c)) body = sx"
    using sx by (simp add: body_def b64index_b64char map_idI)
  have bytes: "map char_of (sextetsToBytes sx) = s"
    using sextets_roundtrip [OF bs] by (simp add: sx_def bs_def comp_def)
  have "atob (body @ pad) = Inr s"
    unfolding atob_def filt rem Let_def using not1 noinv by (simp add: idx bytes)
  moreover have "btoa s = body @ pad"
    by (simp add: btoa_def body_def sx_def bs_def pad_def)
  ultimately show ?thesis by simp
qed

lemma binary_loop: "foldl (\<lambda>binary b. binary @ [f b]) acc bytes = acc @ map f bytes"
  by (induction bytes arbitrary: acc) simp_all

lemma charCode_fromCharCode: "charCode (fromCharCode b) = b"
proof -
  have "unat b < 256" using unsigned_less [of b, where ?'a = nat] by simp
  then show ?thesis by (simp add: charCode_def fromCharCode_def)
qed

lemma decode_encode_bytes: "decode (encode bytes) = Inr bytes"
  by (simp add: decode_def encode_def binary_loop atob_btoa comp_def charCode_fromCharCode)

text \<open>
  C9: for every byte array \<open>bytes\<close>, of any length and with any byte values,
  \<^verbatim>\<open>decode(encode(bytes))\<close> returns without an exception and gives \<open>bytes\<close> back.
\<close>

theorem decode_encode: "decode (encode bytes) = Inr bytes"
  by (rule decode_encode_bytes)

theorem decode_encode_witness: "decode (encode [0, 128, 255, 7]) = Inr [0, 128, 255, 7]"
  using decode_encode [of "[0, 128, 255, 7]"] by simp

section \<open>Message handling\<close>

lemma scheduleAudio_frame:
  "transcripts (fst (scheduleAudio now p s)) = transcripts s"
  "currentInputRef (fst (scheduleAudio now p s)) = currentInputRef s"
  "currentOutputRef (fst (scheduleAudio now p s)) = currentOutputRef s"
  by (simp_all add: scheduleAudio_def Let_def split: sum.splits)

lemma handleInterrupted_frame:
  "transcripts (handleInterrupted m s) = transcripts s"
  "currentInputRef (handleInterrupted m s) = currentInputRef s"
  "currentOutputRef (handleInterrupted m s) = currentOutputRef s"
  by (simp_all add: handleInterrupted_def split: option.splits)

lemma handleTurnComplete_transcripts:
  "transcripts (handleTurnComplete m s) = transcripts s"
  by (simp add: handleTurnComplete_def split: option.splits)

lemma onmessage_unfold:
  "onmessage now m s =
     (let s1 = handleTurnComplete m (handleTranscription m s) in
      case base64AudioOf m of
        Inl e \<Rightarrow> (s1, Some e)
      | Inr p \<Rightarrow>
          (case snd (scheduleAudio now p s1) of
             Some e \<Rightarrow> (fst (scheduleAudio now p s1), Some e)
           | None \<Rightarrow> (handleInterrupted m (fst (scheduleAudio now p s1)), None)))"
  by (auto simp: onmessage_def Let_def split: sum.splits prod.splits option.splits)

lemma onmessage_text_frame:
  "transcripts (fst (onmessage now m s)) = transcripts (handleTranscription m s)"
  "currentInputRef (fst (onmessage now m s)) =
     currentInputRef (handleTurnComplete m (handleTranscription m s))"
  "currentOutputRef (fst (onmessage now m s)) =
     currentOutputRef (handleTurnComplete m (handleTranscription m s))"
  by (simp_all add: onmessage_unfold Let_def scheduleAudio_frame handleInterrupted_frame
      handleTurnComplete_transcripts split: sum.splits option.splits)




section \<open>The transcript\<close>

lemma speakers_updateTranscripts:
  "map speaker (updateTranscripts who cur prev) =
     (if prev \<noteq> [] \<and> speaker (last prev) = who then map speaker prev
      else map speaker prev @ [who])"
proof (cases "prev \<noteq> [] \<and> speaker (last prev) = who")
  case True
  then have "map speaker prev = map speaker (butlast prev) @ [who]"
    by (metis append_butlast_last_id list.simps(8,9) map_append)
  with True show ?thesis by (simp add: updateTranscripts_def)
next
  case False
  then show ?thesis by (auto simp: updateTranscripts_def)
qed

lemma alternating_updateTranscripts:
  "alternating prev \<Longrightarrow> alternating (updateTranscripts who cur prev)"
  by (auto simp: alternating_def speakers_updateTranscripts distinct_adj_append_iff last_map)

lemma alternating_handleTranscription:
  "alternating (transcripts s) \<Longrightarrow> alternating (transcripts (handleTranscription m s))"
  by (auto simp: handleTranscription_def Let_def alternating_updateTranscripts
      split: option.splits)

lemma stopSession_transcripts: "transcripts (stopSession a s) = transcripts s"
  by (simp add: stopSession_def)

lemma startSession_transcripts: "transcripts (startSession env s) = []"
  by (simp add: startSession_def startFailed_def Let_def split: option.splits)

lemma alternating_step:
  assumes "alternating (transcripts s)"
  shows "alternating (transcripts (step e s))"
proof (cases e)
  case (Start env)
  then show ?thesis by (simp add: startSession_transcripts alternating_def)
next
  case (Open env)
  with assms show ?thesis by (simp add: onopen_def Let_def split: option.splits)
next
  case (Message now m)
  with assms show ?thesis
    by (simp add: onmessage_text_frame alternating_handleTranscription)
next
  case (Toggle env)
  with assms show ?thesis
    by (simp add: handleToggleSession_def stopSession_transcripts startSession_transcripts
        alternating_def)
qed (use assms in \<open>simp_all add: onended_def onaudioprocess_def Let_def onerror_def
      onclose_def stopSession_transcripts\<close>)

lemma alternating_run:
  "alternating (transcripts s) \<Longrightarrow> alternating (transcripts (run es s))"
  by (induction es arbitrary: s) (simp_all add: alternating_step)

text \<open>
  C10: no two neighbouring transcript entries have the same speaker. The property is kept
  by \<^verbatim>\<open>onmessage\<close> and by every other callback; \<^verbatim>\<open>startSession\<close> empties the
  transcript; so it holds after any sequence of events, from a session start and from the
  component's initial state.
\<close>

theorem transcript_alternates:
  "(alternating (transcripts s) \<longrightarrow> alternating (transcripts (fst (onmessage now m s)))) \<and>
   (alternating (transcripts s) \<longrightarrow> alternating (transcripts (step e s))) \<and>
   transcripts (startSession env s) = [] \<and>
   alternating (transcripts (run es (startSession env s))) \<and>
   alternating (transcripts (run es initialApp))"
proof -
  have empty: "alternating []" by (simp add: alternating_def)
  have "alternating (transcripts s) \<longrightarrow> alternating (transcripts (fst (onmessage now m s)))"
    using alternating_step [of s "Message now m"] by simp
  moreover have "alternating (transcripts s) \<longrightarrow> alternating (transcripts (step e s))"
    by (simp add: alternating_step)
  moreover have "alternating (transcripts (run es (startSession env s)))"
    by (rule alternating_run) (simp add: startSession_transcripts empty)
  moreover have "alternating (transcripts (run es initialApp))"
    by (rule alternating_run) (simp add: initialApp_def empty)
  ultimately show ?thesis by (simp add: startSession_transcripts)
qed


theorem transcript_alternates_witness:
  "alternating (transcripts sessionActive) \<and>
   alternating (transcripts (fst (onmessage 0 (transcriptionDelta user ''Hel'') sessionActive))) \<and>
   alternating (transcripts (step (Message 0 (transcriptionDelta user ''Hel'')) sessionActive))"
proof -
  have "alternating (transcripts sessionActive)"
    by (simp add: sessionActive_def sessionConnecting_def onopen_def startSession_transcripts
        alternating_def Let_def)
  then show ?thesis
    using transcript_alternates [of sessionActive 0 "transcriptionDelta user ''Hel''"
        "Message 0 (transcriptionDelta user ''Hel'')"
        "\<lparr> genAI = True, newOutputContext = Some 1, connect = Some 2 \<rparr>" "[]"]
    by simp
qed

lemma transcripts_fragment:
  "transcripts (fst (onmessage now (transcriptionDelta user fragment) s)) =
     updateTranscripts user (currentInputRef s @ fragment) (transcripts s)"
  "currentInputRef (fst (onmessage now (transcriptionDelta user fragment) s)) =
     currentInputRef s @ fragment"
  "transcripts (fst (onmessage now (transcriptionDelta ai fragment) s)) =
     updateTranscripts ai (currentOutputRef s @ fragment) (transcripts s)"
  "currentOutputRef (fst (onmessage now (transcriptionDelta ai fragment) s)) =
     currentOutputRef s @ fragment"
  "currentOutputRef (fst (onmessage now (transcriptionDelta user fragment) s)) =
     currentOutputRef s"
  "currentInputRef (fst (onmessage now (transcriptionDelta ai fragment) s)) =
     currentInputRef s"
  by (simp_all add: onmessage_text_frame handleTranscription_def handleTurnComplete_def
      transcriptionDelta_def noContent_def appended_def Let_def)

lemma transcripts_turnComplete:
  "transcripts (fst (onmessage now turnCompleteMessage s)) = transcripts s"
  "currentInputRef (fst (onmessage now turnCompleteMessage s)) = []"
  by (simp_all add: onmessage_text_frame handleTranscription_def handleTurnComplete_def
      turnCompleteMessage_def noContent_def)

text \<open>
  C4, with the condition the claim leaves out. The fragments \<open>Hel\<close> and \<open>lo\<close> of the
  user, one after the other, add exactly one entry \<open>{user, Hello}\<close> when the last entry
  is not the user's and the user's accumulation buffer is empty. In general a fragment
  whose speaker is the last entry's speaker replaces that entry, and any other fragment
  appends an entry; the entry's text is the speaker's buffer followed by the fragment.
  With a turn-complete message between the two fragments there is still one entry for
  both: the second fragment replaces it, and its text is \<open>lo\<close>.
\<close>

theorem transcript_coalescing:
  "((transcripts s = [] \<or> speaker (last (transcripts s)) \<noteq> user) \<and> currentInputRef s = [] \<longrightarrow>
      transcripts (processMessages
          [(t1, transcriptionDelta user ''Hel''), (t2, transcriptionDelta user ''lo'')] s)
        = transcripts s @ [\<lparr> speaker = user, text' = ''Hello'' \<rparr>]) \<and>
   (transcripts s \<noteq> [] \<and> speaker (last (transcripts s)) = who \<longrightarrow>
      transcripts (fst (onmessage now (transcriptionDelta who fragment) s))
        = butlast (transcripts s)
            @ [\<lparr> speaker = who,
                 text' = (case who of user \<Rightarrow> currentInputRef s | ai \<Rightarrow> currentOutputRef s)
                           @ fragment \<rparr>]) \<and>
   (transcripts s = [] \<or> speaker (last (transcripts s)) \<noteq> who \<longrightarrow>
      transcripts (fst (onmessage now (transcriptionDelta who fragment) s))
        = transcripts s
            @ [\<lparr> speaker = who,
                 text' = (case who of user \<Rightarrow> currentInputRef s | ai \<Rightarrow> currentOutputRef s)
                           @ fragment \<rparr>]) \<and>
   ((transcripts s = [] \<or> speaker (last (transcripts s)) \<noteq> user) \<and> currentInputRef s = [] \<longrightarrow>
      transcripts (processMessages
          [(t1, transcriptionDelta user ''Hel''), (t2, turnCompleteMessage),
           (t3, transcriptionDelta user ''lo'')] s)
        = transcripts s @ [\<lparr> speaker = user, text' = ''lo'' \<rparr>])"
proof -
  have two: "transcripts (processMessages
          [(t1, transcriptionDelta user ''Hel''), (t2, transcriptionDelta user ''lo'')] s)
        = transcripts s @ [\<lparr> speaker = user, text' = ''Hello'' \<rparr>]"
    if "transcripts s = [] \<or> speaker (last (transcripts s)) \<noteq> user" "currentInputRef s = []"
    using that by (auto simp: transcripts_fragment updateTranscripts_def)
  have three: "transcripts (processMessages
          [(t1, transcriptionDelta user ''Hel''), (t2, turnCompleteMessage),
           (t3, transcriptionDelta user ''lo'')] s)
        = transcripts s @ [\<lparr> speaker = user, text' = ''lo'' \<rparr>]"
    if "transcripts s = [] \<or> speaker (last (transcripts s)) \<noteq> user" "currentInputRef s = []"
    using that
    by (auto simp: transcripts_fragment transcripts_turnComplete updateTranscripts_def)
  have one: "transcripts (fst (onmessage now (transcriptionDelta who fragment) s))
        = updateTranscripts who
            ((case who of user \<Rightarrow> currentInputRef s | ai \<Rightarrow> currentOutputRef s) @ fragment)
            (transcripts s)"
    by (cases who) (simp_all add: transcripts_fragment)
  show ?thesis
    using two three by (auto simp: one updateTranscripts_def)
qed

theorem transcript_coalescing_witness:
  "transcripts (processMessages
      [(0, transcriptionDelta user ''Hel''), (0, transcriptionDelta user ''lo'')] sessionActive)
     = [\<lparr> speaker = user, text' = ''Hello'' \<rparr>] \<and>
   transcripts (fst (onmessage 0 (transcriptionDelta ai ''there'')
      (sessionActive \<lparr> transcripts := [\<lparr> speaker = ai, text' = ''Hi '' \<rparr>],
                       currentOutputRef := ''Hi '' \<rparr>)))
     = [\<lparr> speaker = ai, text' = ''Hi there'' \<rparr>] \<and>
   transcripts (fst (onmessage 0 (transcriptionDelta ai ''Hi'') sessionActive))
     = [\<lparr> speaker = ai, text' = ''Hi'' \<rparr>] \<and>
   transcripts (processMessages
      [(0, transcriptionDelta user ''Hel''), (0, turnCompleteMessage),
       (0, transcriptionDelta user ''lo'')] sessionActive)
     = [\<lparr> speaker = user, text' = ''lo'' \<rparr>]"
proof -
  have s: "transcripts sessionActive = []" "currentInputRef sessionActive = []"
    "currentOutputRef sessionActive = []"
    by (simp_all add: sessionActive_def sessionConnecting_def onopen_def startSession_def
        initialApp_def Let_def)
  show ?thesis
    using transcript_coalescing [of sessionActive 0 0 ai 0 "''Hi''" 0]
      transcript_coalescing [of "sessionActive \<lparr> transcripts := [\<lparr> speaker = ai, text' = ''Hi '' \<rparr>],
                       currentOutputRef := ''Hi '' \<rparr>" 0 0 ai 0 "''there''" 0]
    by (simp add: s)
qed

text \<open>
  The claim without the condition on the buffer fails. After a user fragment \<open>X\<close> and an
  agent fragment \<open>Y\<close>, with no turn-complete message since, the last entry is the
  agent's, and \<open>Hel\<close>, \<open>lo\<close> add the entry \<open>{user, XHello}\<close>.
\<close>

theorem transcript_coalescing_counterexample:
  "speaker (last (transcripts (processMessages
      [(0, transcriptionDelta user ''X''), (0, transcriptionDelta ai ''Y'')] sessionActive)))
     \<noteq> user \<and>
   transcripts (processMessages
      [(0, transcriptionDelta user ''Hel''), (0, transcriptionDelta user ''lo'')]
      (processMessages
         [(0, transcriptionDelta user ''X''), (0, transcriptionDelta ai ''Y'')] sessionActive))
     = transcripts (processMessages
         [(0, transcriptionDelta user ''X''), (0, transcriptionDelta ai ''Y'')] sessionActive)
       @ [\<lparr> speaker = user, text' = ''XHello'' \<rparr>] \<and>
   transcripts (processMessages
      [(0, transcriptionDelta user ''Hel''), (0, transcriptionDelta user ''lo'')]
      (processMessages
         [(0, transcriptionDelta user ''X''), (0, transcriptionDelta ai ''Y'')] sessionActive))
     \<noteq> transcripts (processMessages
         [(0, transcriptionDelta user ''X''), (0, transcriptionDelta ai ''Y'')] sessionActive)
       @ [\<lparr> speaker = user, text' = ''Hello'' \<rparr>]"
proof -
  have s: "transcripts sessionActive = []" "currentInputRef sessionActive = []"
    "currentOutputRef sessionActive = []"
    by (simp_all add: sessionActive_def sessionConnecting_def onopen_def startSession_def
        initialApp_def Let_def)
  show ?thesis
    by (simp add: transcripts_fragment updateTranscripts_def s)
qed


section \<open>The PCM round trip\<close>

lemma bytesInt16_int16Bytes:
  "bytesInt16 (concat (map int16Bytes ws)) = ws"
proof (induction ws)
  case Nil
  show ?case by simp
next
  case (Cons w ws)
  have lt: "unat w < 65536" using unsigned_less [of w, where ?'a = nat] by simp
  then have hi: "unat w div 256 < 256" by (simp add: less_mult_imp_div_less)
  have lo: "unat (of_nat (unat w mod 256) :: byte) = unat w mod 256"
    by (simp add: unat_of_nat)
  have hi': "unat (of_nat (unat w div 256) :: byte) = unat w div 256"
    using hi by (simp add: unat_of_nat)
  have "(of_nat (unat w mod 256 + 256 * (unat w div 256)) :: int16) = w"
    by simp
  with Cons show ?case by (simp add: int16Bytes_def lo hi')
qed

lemma length_int16Bytes: "length (concat (map int16Bytes ws)) = 2 * length ws"
  by (induction ws) (simp_all add: int16Bytes_def)

lemma map_nth_all: "map (\<lambda>i. f (xs ! i)) [0..<length xs] = map f xs"
  by (rule nth_equalityI) simp_all

lemma decodeAudioData_mono:
  "ws \<noteq> [] \<Longrightarrow>
   decodeAudioData (concat (map int16Bytes ws)) rate 1 =
     Inr \<lparr> numberOfChannels = 1, frameCount = length ws, sampleRate = rate,
           channelData = [map (\<lambda>w. real_of_int (sint w) / 32768) ws] \<rparr>"
  using map_nth_all [of "\<lambda>w. real_of_int (sint w) / 32768" ws]
  by (simp add: decodeAudioData_def Let_def bytesInt16_int16Bytes length_int16Bytes)

lemma decodeInbound_createBlob:
  assumes "samples \<noteq> []"
  shows "decodeInbound (data (createBlob samples)) =
     Inr \<lparr> numberOfChannels = 1, frameCount = length samples, sampleRate = 24000,
           channelData = [map (\<lambda>x. real_of_int (sint (toInt16 (x * 32768))) / 32768) samples] \<rparr>"
proof -
  define ws where "ws = map (\<lambda>x. toInt16 (x * 32768)) samples"
  have "ws \<noteq> []" using assms by (simp add: ws_def)
  then have "decodeAudioData (concat (map int16Bytes ws)) 24000 1 =
     Inr \<lparr> numberOfChannels = 1, frameCount = length ws, sampleRate = 24000,
           channelData = [map (\<lambda>w. real_of_int (sint w) / 32768) ws] \<rparr>"
    by (rule decodeAudioData_mono)
  moreover have "data (createBlob samples) = encode (concat (map int16Bytes ws))"
    by (simp add: createBlob_def Let_def ws_def)
  ultimately show ?thesis
    by (simp add: decodeInbound_def decode_encode_bytes ws_def comp_def)
qed

lemma quantisation:
  assumes "- 1 \<le> x" and "x < 1"
  shows "\<bar>real_of_int (sint (toInt16 (x * 32768))) / 32768 - x\<bar> < 1 / 32768"
proof -
  define k where "k = (if 0 \<le> x * 32768 then \<lfloor>x * 32768\<rfloor> else \<lceil>x * 32768\<rceil>)"
  have lo: "- 32768 \<le> k" using assms by (auto simp: k_def le_floor_iff le_ceiling_iff)
  have hi: "k < 32768" using assms by (auto simp: k_def floor_less_iff ceiling_less_iff)
  have "sint (word_of_int k :: int16) = k"
    using lo hi by (simp add: sint_sbintrunc' signed_take_bit_int_eq_self)
  then have s: "sint (toInt16 (x * 32768)) = k" by (simp add: toInt16_def k_def)
  have "\<bar>real_of_int k - x * 32768\<bar> < 1"
    unfolding k_def by (auto; linarith)
  then have "\<bar>real_of_int k / 32768 - x\<bar> < 1 / 32768"
    by (simp add: field_simps abs_less_iff)
  with s show ?thesis by simp
qed


lemma roundTrip_below_full_scale:
  assumes "samples \<noteq> []" and "\<forall>x \<in> set samples. - 1 \<le> x \<and> x < 1"
  shows "roundTrip samples =
           Inr (map (\<lambda>x. real_of_int (sint (toInt16 (x * 32768))) / 32768) samples)"
    and "withinQuantisation samples
           (map (\<lambda>x. real_of_int (sint (toInt16 (x * 32768))) / 32768) samples)"
proof -
  show "roundTrip samples =
           Inr (map (\<lambda>x. real_of_int (sint (toInt16 (x * 32768))) / 32768) samples)"
    using assms(1) by (simp add: roundTrip_def decodeInbound_createBlob)
  have "\<bar>real_of_int (sint (toInt16 (x * 32768))) / 32768 - x\<bar> \<le> 1 / 32768"
    if "x \<in> set samples" for x
    using quantisation [of x] assms(2) that by fastforce
  then show "withinQuantisation samples
           (map (\<lambda>x. real_of_int (sint (toInt16 (x * 32768))) / 32768) samples)"
    by (simp add: withinQuantisation_def list_all2_conv_all_nth)
qed

text \<open>
  C3 at the sample \<open>1.0\<close>, which lies in \<open>[-1, 1]\<close>: \<open>1.0 * 32768\<close> is \<open>32768\<close>, one
  more than the largest 16-bit signed integer, and the store into the \<^verbatim>\<open>Int16Array\<close>
  wraps it to \<open>-32768\<close>. The payload is \<open>AIA=\<close> and decodes to the sample \<open>-1.0\<close>,
  at distance \<open>2\<close> from the original.
\<close>

theorem createBlob_full_scale:
  "data (createBlob [1]) = ''AIA='' \<and> roundTrip [1] = Inr [- 1] \<and>
   \<not> withinQuantisation [1] [- 1]"
proof -
  have "toInt16 (1 * 32768) = (32768 :: int16)" by (simp add: toInt16_def)
  then have "data (createBlob [1]) = encode [0, 128]"
    by (simp add: createBlob_def int16Bytes_def)
  moreover have "encode [0, 128] = ''AIA=''"
    by code_simp
  moreover have "roundTrip [1] = Inr [- 1]"
    by (simp add: roundTrip_def decodeInbound_createBlob toInt16_def)
  ultimately show ?thesis by (simp add: withinQuantisation_def)
qed


section \<open>The playback schedule\<close>

lemma decodeInbound_empty: "decodeInbound [] = Inl NotSupportedError"
  by (simp add: decodeInbound_def decode_def atob_def removePadding_def decodeAudioData_def)

lemma decodeInbound_nonempty: "decodeInbound p = Inr b \<Longrightarrow> p \<noteq> []"
  using decodeInbound_empty by auto

lemma payload_AIA: "data (createBlob [1]) = ''AIA=''"
proof -
  have "toInt16 (1 * 32768) = (32768 :: int16)" by (simp add: toInt16_def)
  then have "data (createBlob [1]) = encode [0, 128]"
    by (simp add: createBlob_def int16Bytes_def)
  moreover have "encode [0, 128] = ''AIA=''" by code_simp
  ultimately show ?thesis by simp
qed

lemma decodeInbound_AIA:
  "decodeInbound ''AIA='' =
     Inr \<lparr> numberOfChannels = 1, frameCount = 1, sampleRate = 24000, channelData = [[- 1]] \<rparr>"
  using decodeInbound_createBlob [of "[1]"]
  by (simp add: payload_AIA toInt16_def)

lemma decodeInbound_bang: "decodeInbound ''!'' = Inl InvalidCharacterError"
  by (simp add: decodeInbound_def decode_def atob_def removePadding_def isAsciiWhitespace_def)

lemma scheduleAudio_ok:
  assumes "decodeInbound p = Inr b" and "outputAudioContextRef s \<noteq> None"
  shows "scheduleAudio now p s =
           (s \<lparr> nextStartTimeRef := max (nextStartTimeRef s) now + duration b,
                nodesCreated := Suc (nodesCreated s),
                effects := effects s @ [SourceStart (nodesCreated s) (max (nextStartTimeRef s) now)],
                sourcesRef := sourcesRef s
                  @ [\<lparr> node = nodesCreated s, buffer = b,
                        startedAt = max (nextStartTimeRef s) now \<rparr>] \<rparr>, None)"
  using assms decodeInbound_nonempty [OF assms(1)]
  by (simp add: scheduleAudio_def Let_def)

lemma scheduleAudio_failed:
  assumes "decodeInbound p = Inl e" and "p \<noteq> []" and "outputAudioContextRef s \<noteq> None"
  shows "scheduleAudio now p s = (s \<lparr> nextStartTimeRef := max (nextStartTimeRef s) now \<rparr>, Some e)"
  using assms by (simp add: scheduleAudio_def Let_def)

lemma scheduleAudio_skipped:
  "p = [] \<or> outputAudioContextRef s = None \<Longrightarrow> scheduleAudio now p s = (s, None)"
  by (auto simp: scheduleAudio_def)

lemma base64AudioOf_audioDelta: "base64AudioOf (audioDelta p) = Inr p"
  by (simp add: base64AudioOf_def audioDelta_def noContent_def)

lemma audioDelta_text:
  "handleTurnComplete (audioDelta p) s = s"
  "handleTranscription (audioDelta p) s = s"
  "handleInterrupted (audioDelta p) s = s"
  by (simp_all add: handleTurnComplete_def handleTranscription_def handleInterrupted_def
      audioDelta_def noContent_def)

lemma onmessage_audioDelta: "onmessage now (audioDelta p) s = scheduleAudio now p s"
  by (cases "scheduleAudio now p s")
     (simp add: onmessage_def base64AudioOf_audioDelta audioDelta_text split: option.splits)

lemma duration_nonneg: "0 \<le> duration b"
  by (simp add: duration_def)

lemma length_endToEnd: "length (endToEnd t k bufs) = length bufs"
  by (induction bufs arbitrary: t k) simp_all

lemma nth_endToEnd:
  "i < length bufs \<Longrightarrow>
   endToEnd t k bufs ! i =
     \<lparr> node = k + i, buffer = bufs ! i,
       startedAt = t + sum_list (map duration (take i bufs)) \<rparr>"
proof (induction bufs arbitrary: t k i)
  case Nil
  then show ?case by simp
next
  case (Cons b bufs)
  show ?case
  proof (cases i)
    case 0
    then show ?thesis by simp
  next
    case (Suc j)
    with Cons.prems have "j < length bufs" by simp
    from Cons.IH [OF this, of "t + duration b" "Suc k"] Suc show ?thesis
      by (simp add: add.assoc)
  qed
qed

lemma processMessages_audioDeltas:
  assumes "outputAudioContextRef s \<noteq> None"
    and "list_all2 (\<lambda>f b. decodeInbound (snd f) = Inr b) frames bufs"
    and "\<forall>i < length frames.
           fst (frames ! i) \<le> nextStartTimeRef s + sum_list (map duration (take i bufs))"
  shows "nextStartTimeRef (processMessages (audioDeltas frames) s) =
           nextStartTimeRef s + sum_list (map duration bufs) \<and>
         sourcesRef (processMessages (audioDeltas frames) s) =
           sourcesRef s @ endToEnd (nextStartTimeRef s) (nodesCreated s) bufs \<and>
         outputAudioContextRef (processMessages (audioDeltas frames) s) =
           outputAudioContextRef s"
  using assms(2,1,3)
proof (induction frames bufs arbitrary: s rule: list_all2_induct)
  case Nil
  then show ?case by (simp add: audioDeltas_def)
next
  case (Cons f frames b bufs)
  obtain now p where f: "f = (now, p)" by (cases f)
  from Cons.hyps(1) f have dec: "decodeInbound p = Inr b" by simp
  from Cons.prems(2) f have "now \<le> nextStartTimeRef s" by fastforce
  then have clamp: "max (nextStartTimeRef s) now = nextStartTimeRef s" by simp
  define s' where "s' = fst (onmessage now (audioDelta p) s)"
  have s': "nextStartTimeRef s' = nextStartTimeRef s + duration b"
    "sourcesRef s' = sourcesRef s
       @ [\<lparr> node = nodesCreated s, buffer = b, startedAt = nextStartTimeRef s \<rparr>]"
    "nodesCreated s' = Suc (nodesCreated s)"
    "outputAudioContextRef s' = outputAudioContextRef s"
    using scheduleAudio_ok [OF dec Cons.prems(1), of now]
    by (simp_all add: s'_def onmessage_audioDelta clamp)
  have ctx: "outputAudioContextRef s' \<noteq> None" using Cons.prems(1) s' by simp
  have clock: "\<forall>i < length frames.
      fst (frames ! i) \<le> nextStartTimeRef s' + sum_list (map duration (take i bufs))"
  proof (intro allI impI)
    fix i assume "i < length frames"
    then have "fst ((f # frames) ! Suc i)
        \<le> nextStartTimeRef s + sum_list (map duration (take (Suc i) (b # bufs)))"
      using Cons.prems(2) by (metis Suc_less_eq length_Cons)
    then show "fst (frames ! i) \<le> nextStartTimeRef s' + sum_list (map duration (take i bufs))"
      by (simp add: s' add.assoc)
  qed
  have run: "processMessages (audioDeltas (f # frames)) s = processMessages (audioDeltas frames) s'"
    by (simp add: audioDeltas_def f s'_def)
  from Cons.IH [OF ctx clock] show ?case
    by (simp add: run s' add.assoc)
qed

lemma list_all2_take:
  "list_all2 P xs ys \<Longrightarrow> list_all2 P (take n xs) (take n ys)"
  by (simp add: list_all2_takeI)

lemma sum_take_mono:
  assumes "\<forall>x \<in> set xs. (0::real) \<le> x" and "i \<le> j"
  shows "sum_list (take i xs) \<le> sum_list (take j xs)"
proof -
  have "take j xs = take i xs @ take (j - i) (drop i xs)"
    using assms(2) by (metis le_add_diff_inverse take_add)
  moreover have "0 \<le> sum_list (take (j - i) (drop i xs))"
    using assms(1) by (meson in_set_dropD in_set_takeD sum_list_nonneg)
  ultimately show ?thesis by simp
qed

lemma cursor_after_prefix:
  assumes "nextStartTimeRef s = 0" and "outputAudioContextRef s \<noteq> None"
    and "list_all2 (\<lambda>f b. decodeInbound (snd f) = Inr b) frames bufs"
    and "\<forall>i < length frames. fst (frames ! i) \<le> sum_list (map duration (take i bufs))"
  shows "nextStartTimeRef (processMessages (audioDeltas (take n frames)) s) =
           sum_list (map duration (take n bufs))"
proof -
  have "\<forall>i < length (take n frames).
      fst (take n frames ! i)
        \<le> nextStartTimeRef s + sum_list (map duration (take i (take n bufs)))"
    using assms(1,4) by (simp add: min_def)
  from processMessages_audioDeltas [OF assms(2) list_all2_take [OF assms(3)] this]
  show ?thesis by (simp add: assms(1))
qed

text \<open>
  C1: audio-delta messages whose payloads decode to the buffers \<open>bufs\<close>, handled from an
  idle scheduler (cursor \<open>0\<close>, empty live set, output context present), when the clock
  read for the \<open>i\<close>-th message is at most the total duration of the buffers before it.
  Then the live set holds one unit per message, in order; the \<open>i\<close>-th unit plays the
  \<open>i\<close>-th buffer and starts at the total duration of the buffers before it, which is
  the maximum of the cursor and the clock at that message; handling the message advances
  the cursor by exactly that buffer's duration; and every unit has ended when a later one
  starts.
\<close>

theorem gapless_ordering:
  assumes "nextStartTimeRef s = 0" and "sourcesRef s = []"
    and "outputAudioContextRef s \<noteq> None"
    and "list_all2 (\<lambda>f b. decodeInbound (snd f) = Inr b) frames bufs"
    and "\<forall>i < length frames. fst (frames ! i) \<le> sum_list (map duration (take i bufs))"
  shows "length (sourcesRef (processMessages (audioDeltas frames) s)) = length frames \<and>
    (\<forall>i < length frames.
       buffer (sourcesRef (processMessages (audioDeltas frames) s) ! i) = bufs ! i \<and>
       startedAt (sourcesRef (processMessages (audioDeltas frames) s) ! i)
         = sum_list (map duration (take i bufs)) \<and>
       startedAt (sourcesRef (processMessages (audioDeltas frames) s) ! i)
         = max (nextStartTimeRef (processMessages (audioDeltas (take i frames)) s))
               (fst (frames ! i)) \<and>
       nextStartTimeRef (processMessages (audioDeltas (take (Suc i) frames)) s)
         = nextStartTimeRef (processMessages (audioDeltas (take i frames)) s)
             + duration (bufs ! i)) \<and>
    (\<forall>i j. i < j \<and> j < length frames \<longrightarrow>
       startedAt (sourcesRef (processMessages (audioDeltas frames) s) ! i)
         + duration (buffer (sourcesRef (processMessages (audioDeltas frames) s) ! i))
       \<le> startedAt (sourcesRef (processMessages (audioDeltas frames) s) ! j))"
proof -
  let ?units = "sourcesRef (processMessages (audioDeltas frames) s)"
  let ?sum = "\<lambda>n. sum_list (map duration (take n bufs))"
  have len: "length frames = length bufs"
    using assms(4) by (rule list_all2_lengthD)
  have "\<forall>i < length frames.
      fst (frames ! i) \<le> nextStartTimeRef s + sum_list (map duration (take i bufs))"
    using assms(1,5) by simp
  from processMessages_audioDeltas [OF assms(3,4) this]
  have units: "?units = endToEnd 0 (nodesCreated s) bufs"
    by (simp add: assms(1,2))
  have cursor: "nextStartTimeRef (processMessages (audioDeltas (take n frames)) s) = ?sum n"
    for n by (rule cursor_after_prefix [OF assms(1,3,4,5)])
  have unit: "buffer (?units ! i) = bufs ! i" "startedAt (?units ! i) = ?sum i"
    if "i < length frames" for i
    using that len by (simp_all add: units nth_endToEnd)
  have step: "?sum (Suc i) = ?sum i + duration (bufs ! i)" if "i < length frames" for i
    using that len by (simp add: take_Suc_conv_app_nth)
  have "length ?units = length frames"
    by (simp add: units length_endToEnd len)
  moreover have "buffer (?units ! i) = bufs ! i \<and> startedAt (?units ! i) = ?sum i \<and>
      startedAt (?units ! i)
        = max (nextStartTimeRef (processMessages (audioDeltas (take i frames)) s))
              (fst (frames ! i)) \<and>
      nextStartTimeRef (processMessages (audioDeltas (take (Suc i) frames)) s)
        = nextStartTimeRef (processMessages (audioDeltas (take i frames)) s)
            + duration (bufs ! i)"
    if "i < length frames" for i
  proof -
    have "fst (frames ! i) \<le> ?sum i" using assms(5) that by simp
    then have "max (?sum i) (fst (frames ! i)) = ?sum i" by simp
    then show ?thesis using that by (simp add: cursor unit step)
  qed
  moreover have "startedAt (?units ! i) + duration (buffer (?units ! i))
      \<le> startedAt (?units ! j)"
    if "i < j \<and> j < length frames" for i j
  proof -
    have i: "i < length frames" and j: "j < length frames" using that by simp_all
    have "\<forall>x \<in> set (map duration bufs). 0 \<le> x" by (auto simp: duration_nonneg)
    then have "sum_list (take (Suc i) (map duration bufs))
        \<le> sum_list (take j (map duration bufs))"
      using that by (intro sum_take_mono) simp_all
    then have "?sum (Suc i) \<le> ?sum j" by (simp add: take_map)
    then show ?thesis using i j by (simp add: unit step)
  qed
  ultimately show ?thesis by blast
qed

theorem gapless_ordering_witness:
  "length (sourcesRef (processMessages
      (audioDeltas [(0, ''AIA=''), (1 / 24000, ''AIA='')]) sessionActive)) = 2 \<and>
   startedAt (sourcesRef (processMessages
      (audioDeltas [(0, ''AIA=''), (1 / 24000, ''AIA='')]) sessionActive) ! 0) = 0 \<and>
   startedAt (sourcesRef (processMessages
      (audioDeltas [(0, ''AIA=''), (1 / 24000, ''AIA='')]) sessionActive) ! 1) = 1 / 24000 \<and>
   nextStartTimeRef (processMessages
      (audioDeltas [(0, ''AIA=''), (1 / 24000, ''AIA='')]) sessionActive) = 2 / 24000"
proof -
  let ?b = "\<lparr> numberOfChannels = 1, frameCount = 1, sampleRate = 24000,
             channelData = [[- 1]] \<rparr>"
  let ?frames = "[(0, ''AIA=''), (1 / 24000, ''AIA='')] :: (real \<times> string) list"
  have idle: "nextStartTimeRef sessionActive = 0" "sourcesRef sessionActive = []"
    "outputAudioContextRef sessionActive \<noteq> None"
    by (simp_all add: sessionActive_def sessionConnecting_def onopen_def startSession_def
        initialApp_def Let_def)
  have dec: "list_all2 (\<lambda>f b. decodeInbound (snd f) = Inr b) ?frames [?b, ?b]"
    by (simp add: decodeInbound_AIA)
  have clock: "\<forall>i < length ?frames.
      fst (?frames ! i) \<le> sum_list (map duration (take i [?b, ?b]))"
    by (simp add: All_less_Suc duration_def)
  have start: "processMessages (audioDeltas []) sessionActive = sessionActive"
    by (simp add: audioDeltas_def)
  from gapless_ordering [OF idle dec clock]
  show ?thesis
    by (simp add: All_less_Suc duration_def start idle)
qed


lemma interrupted_only:
  assumes "serverContent m = Some c" and "interrupted c" and "base64AudioOf m = Inr []"
    and "outputTranscription c = None" and "inputTranscription c = None"
  shows "onmessage now m s =
           (handleTurnComplete m s
              \<lparr> effects := effects s @ map (\<lambda>source. SourceStop (node source)) (sourcesRef s),
                sourcesRef := [], nextStartTimeRef := 0 \<rparr>, None)"
  using assms
  by (simp add: onmessage_def scheduleAudio_def handleTranscription_def handleInterrupted_def
      handleTurnComplete_def)

lemma sessionActive_fields:
  "nextStartTimeRef sessionActive = 0" "sourcesRef sessionActive = []"
  "outputAudioContextRef sessionActive = Some 1" "nodesCreated sessionActive = 0"
  "effects sessionActive = []" "sessionPromiseRef sessionActive = Some 2"
  by (simp_all add: sessionActive_def sessionConnecting_def onopen_def startSession_def
      initialApp_def Let_def)

lemma sessionPlaying_fields:
  "nextStartTimeRef sessionPlaying = 1 / 24000"
  "sourcesRef sessionPlaying =
     [\<lparr> node = 0,
        buffer = \<lparr> numberOfChannels = 1, frameCount = 1, sampleRate = 24000,
                   channelData = [[- 1]] \<rparr>,
        startedAt = 0 \<rparr>]"
  "outputAudioContextRef sessionPlaying = Some 1" "nodesCreated sessionPlaying = 1"
  "effects sessionPlaying = [SourceStart 0 0]"
  using scheduleAudio_ok [OF decodeInbound_AIA, of sessionActive 0]
  by (simp_all add: sessionPlaying_def onmessage_audioDelta sessionActive_fields duration_def)

lemma interruptedMessage_fields:
  "serverContent interruptedMessage = Some (noContent \<lparr> interrupted := True \<rparr>)"
  "interrupted (noContent \<lparr> interrupted := True \<rparr>)"
  "base64AudioOf interruptedMessage = Inr []"
  "outputTranscription (noContent \<lparr> interrupted := True \<rparr>) = None"
  "inputTranscription (noContent \<lparr> interrupted := True \<rparr>) = None"
  by (simp_all add: interruptedMessage_def noContent_def base64AudioOf_def)

text \<open>
  C2: a message that carries the interrupted flag and neither audio nor a transcription
  fragment. The handler returns normally; it calls \<^verbatim>\<open>stop\<close> on every unit of the live
  set, in order, and on nothing else; the live set is then empty and the cursor \<open>0\<close>.
  The same message handled again changes nothing, and with an empty live set no call is
  made. An audio-delta message handled next, at clock time \<open>now'\<close>, schedules its unit at
  \<open>max 0 now'\<close>, which is at least \<open>now'\<close>.
\<close>

theorem barge_in:
  assumes "serverContent m = Some c" and "interrupted c" and "base64AudioOf m = Inr []"
    and "outputTranscription c = None" and "inputTranscription c = None"
  shows "snd (onmessage now m s) = None \<and>
         sourcesRef (fst (onmessage now m s)) = [] \<and>
         nextStartTimeRef (fst (onmessage now m s)) = 0 \<and>
         effects (fst (onmessage now m s)) =
           effects s @ map (\<lambda>source. SourceStop (node source)) (sourcesRef s) \<and>
         onmessage now' m (fst (onmessage now m s)) = (fst (onmessage now m s), None) \<and>
         (sourcesRef s = [] \<longrightarrow> effects (fst (onmessage now m s)) = effects s) \<and>
         (outputAudioContextRef s \<noteq> None \<and> decodeInbound p = Inr b \<longrightarrow>
            sourcesRef (fst (onmessage now' (audioDelta p) (fst (onmessage now m s)))) =
              [\<lparr> node = nodesCreated s, buffer = b, startedAt = max 0 now' \<rparr>] \<and>
            now' \<le> startedAt (last (sourcesRef
              (fst (onmessage now' (audioDelta p) (fst (onmessage now m s)))))))"
proof -
  let ?s' = "fst (onmessage now m s)"
  note first = interrupted_only [OF assms, of now s]
  have again: "onmessage now' m ?s' = (?s', None)"
    using assms(1) by (simp add: interrupted_only [OF assms] handleTurnComplete_def)
  have next_audio: "sourcesRef (fst (onmessage now' (audioDelta p) ?s')) =
              [\<lparr> node = nodesCreated s, buffer = b, startedAt = max 0 now' \<rparr>]"
    if "outputAudioContextRef s \<noteq> None" "decodeInbound p = Inr b"
  proof -
    have "outputAudioContextRef ?s' \<noteq> None" "nodesCreated ?s' = nodesCreated s"
      using that(1) assms(1) by (simp_all add: first handleTurnComplete_def)
    then show ?thesis
      using scheduleAudio_ok [OF that(2), of ?s' now']
      by (simp add: onmessage_audioDelta) (simp add: first)
  qed
  show ?thesis
    using assms(1) next_audio by (simp add: again) (simp add: first handleTurnComplete_def)
qed


theorem barge_in_witness:
  "sourcesRef sessionPlaying \<noteq> [] \<and>
   snd (onmessage 3 interruptedMessage sessionPlaying) = None \<and>
   sourcesRef (fst (onmessage 3 interruptedMessage sessionPlaying)) = [] \<and>
   nextStartTimeRef (fst (onmessage 3 interruptedMessage sessionPlaying)) = 0 \<and>
   effects (fst (onmessage 3 interruptedMessage sessionPlaying)) = [SourceStart 0 0, SourceStop 0] \<and>
   onmessage 5 interruptedMessage (fst (onmessage 3 interruptedMessage sessionPlaying))
     = (fst (onmessage 3 interruptedMessage sessionPlaying), None) \<and>
   map startedAt (sourcesRef (fst (onmessage 5 (audioDelta ''AIA='')
      (fst (onmessage 3 interruptedMessage sessionPlaying))))) = [5]"
  using barge_in [OF interruptedMessage_fields, of 3 sessionPlaying 5 "''AIA=''"
      "\<lparr> numberOfChannels = 1, frameCount = 1, sampleRate = 24000, channelData = [[- 1]] \<rparr>"]
  by (simp add: sessionPlaying_fields decodeInbound_AIA)

lemma text_steps_frame:
  "nextStartTimeRef (handleTurnComplete m (handleTranscription m s)) = nextStartTimeRef s"
  "sourcesRef (handleTurnComplete m (handleTranscription m s)) = sourcesRef s"
  "effects (handleTurnComplete m (handleTranscription m s)) = effects s"
  "nodesCreated (handleTurnComplete m (handleTranscription m s)) = nodesCreated s"
  "outputAudioContextRef (handleTurnComplete m (handleTranscription m s)) =
     outputAudioContextRef s"
  by (simp_all add: handleTurnComplete_def handleTranscription_def Let_def split: option.splits)

lemma onmessage_malformed:
  assumes "base64AudioOf m = Inr p" and "decodeInbound p = Inl e" and "p \<noteq> []"
    and "outputAudioContextRef s \<noteq> None"
  shows "onmessage now m s =
           (handleTurnComplete m (handleTranscription m s)
              \<lparr> nextStartTimeRef := max (nextStartTimeRef s) now \<rparr>, Some e)"
  using assms
    scheduleAudio_failed [OF assms(2,3), of "handleTurnComplete m (handleTranscription m s)" now]
  by (simp add: onmessage_def text_steps_frame)

lemma later_clamp:
  assumes "now \<le> now'" and "p' \<noteq> []" and "outputAudioContextRef s \<noteq> None"
  shows "scheduleAudio now' p' (s \<lparr> nextStartTimeRef := max (nextStartTimeRef s) now \<rparr>)
           = scheduleAudio now' p' s"
proof -
  have "max (max (nextStartTimeRef s) now) now' = max (nextStartTimeRef s) now'"
    using assms(1) by simp
  then show ?thesis
    using assms(2,3) by (simp add: scheduleAudio_def Let_def split: sum.splits)
qed

text \<open>
  C7, with the one change of state that the handler makes before it decodes. A message
  whose audio payload is not empty and does not decode (\<^verbatim>\<open>atob\<close>, the \<^verbatim>\<open>Int16Array\<close>
  view or \<^verbatim>\<open>createBuffer\<close> throws), handled while an output context exists: the handler
  is left by that exception; the live set, the recorded calls and the node count are as
  before, so no unit was added; the cursor is \<open>max cursor now\<close>, with no duration added.
  For an audio-delta message nothing else changes; the state is untouched when the clock
  has not passed the cursor; and an audio-delta message handled later, at a clock time
  not before this one, has the same outcome as if the malformed frame had never arrived.
\<close>

theorem malformed_audio_dropped:
  assumes "base64AudioOf m = Inr p" and "decodeInbound p = Inl e" and "p \<noteq> []"
    and "outputAudioContextRef s \<noteq> None"
  shows "snd (onmessage now m s) = Some e \<and>
         sourcesRef (fst (onmessage now m s)) = sourcesRef s \<and>
         effects (fst (onmessage now m s)) = effects s \<and>
         nodesCreated (fst (onmessage now m s)) = nodesCreated s \<and>
         nextStartTimeRef (fst (onmessage now m s)) = max (nextStartTimeRef s) now \<and>
         fst (onmessage now (audioDelta p) s)
           = s \<lparr> nextStartTimeRef := max (nextStartTimeRef s) now \<rparr> \<and>
         (now \<le> nextStartTimeRef s \<longrightarrow> fst (onmessage now (audioDelta p) s) = s) \<and>
         (now \<le> now' \<and> p' \<noteq> [] \<longrightarrow>
            onmessage now' (audioDelta p') (fst (onmessage now (audioDelta p) s))
              = onmessage now' (audioDelta p') s)"
proof -
  have general: "onmessage now m s =
           (handleTurnComplete m (handleTranscription m s)
              \<lparr> nextStartTimeRef := max (nextStartTimeRef s) now \<rparr>, Some e)"
    by (rule onmessage_malformed [OF assms])
  have pure: "onmessage now (audioDelta p) s
      = (s \<lparr> nextStartTimeRef := max (nextStartTimeRef s) now \<rparr>, Some e)"
    using scheduleAudio_failed [OF assms(2,3,4), of now] by (simp add: onmessage_audioDelta)
  have unchanged: "fst (onmessage now (audioDelta p) s) = s" if "now \<le> nextStartTimeRef s"
  proof -
    from that have "max (nextStartTimeRef s) now = nextStartTimeRef s" by simp
    then show ?thesis by (simp add: pure)
  qed
  have later: "onmessage now' (audioDelta p') (fst (onmessage now (audioDelta p) s))
              = onmessage now' (audioDelta p') s" if "now \<le> now'" "p' \<noteq> []"
  proof -
    have "fst (onmessage now (audioDelta p) s)
        = s \<lparr> nextStartTimeRef := max (nextStartTimeRef s) now \<rparr>"
      by (simp add: pure)
    then show ?thesis
      by (simp add: onmessage_audioDelta later_clamp [OF that assms(4)])
  qed
  show ?thesis
    using unchanged later by (simp add: general text_steps_frame) (simp add: pure)
qed

theorem malformed_audio_dropped_witness:
  "snd (onmessage 5 (audioDelta ''!'') sessionPlaying) = Some InvalidCharacterError \<and>
   sourcesRef (fst (onmessage 5 (audioDelta ''!'') sessionPlaying)) = sourcesRef sessionPlaying \<and>
   nextStartTimeRef (fst (onmessage 5 (audioDelta ''!'') sessionPlaying)) = 5 \<and>
   onmessage 7 (audioDelta ''AIA='') (fst (onmessage 5 (audioDelta ''!'') sessionPlaying))
     = onmessage 7 (audioDelta ''AIA='') sessionPlaying"
proof -
  have ctx: "outputAudioContextRef sessionPlaying \<noteq> None" and bang: "''!'' \<noteq> []"
    by (simp_all add: sessionPlaying_fields)
  have "max (nextStartTimeRef sessionPlaying) 5 = 5"
    by (simp add: sessionPlaying_fields)
  note dropped = malformed_audio_dropped
      [OF base64AudioOf_audioDelta decodeInbound_bang bang ctx, of 5 7 "''AIA=''"]
  from dropped
  have "snd (onmessage 5 (audioDelta ''!'') sessionPlaying) = Some InvalidCharacterError"
    by blast
  moreover from dropped
  have "sourcesRef (fst (onmessage 5 (audioDelta ''!'') sessionPlaying))
      = sourcesRef sessionPlaying"
    by blast
  moreover from dropped
  have "nextStartTimeRef (fst (onmessage 5 (audioDelta ''!'') sessionPlaying))
      = max (nextStartTimeRef sessionPlaying) 5"
    by blast
  moreover from dropped
  have "(5::real) \<le> 7 \<and> ''AIA='' \<noteq> [] \<longrightarrow>
      onmessage 7 (audioDelta ''AIA='') (fst (onmessage 5 (audioDelta ''!'') sessionPlaying))
        = onmessage 7 (audioDelta ''AIA='') sessionPlaying"
    by blast
  ultimately show ?thesis
    by (simp add: sessionPlaying_fields)
qed

text \<open>
  The state is not always unchanged: with the cursor at \<open>1/24000\<close> and the clock at
  \<open>5\<close>, the malformed payload \<open>!\<close> leaves the cursor at \<open>5\<close>.
\<close>

theorem malformed_audio_dropped_counterexample:
  "snd (onmessage 5 (audioDelta ''!'') sessionPlaying) = Some InvalidCharacterError \<and>
   nextStartTimeRef sessionPlaying = 1 / 24000 \<and>
   nextStartTimeRef (fst (onmessage 5 (audioDelta ''!'') sessionPlaying)) = 5 \<and>
   fst (onmessage 5 (audioDelta ''!'') sessionPlaying) \<noteq> sessionPlaying"
proof -
  have "onmessage 5 (audioDelta ''!'') sessionPlaying
      = (sessionPlaying \<lparr> nextStartTimeRef := max (nextStartTimeRef sessionPlaying) 5 \<rparr>,
         Some InvalidCharacterError)"
    using scheduleAudio_failed [OF decodeInbound_bang, of sessionPlaying 5]
    by (simp add: onmessage_audioDelta sessionPlaying_fields)
  moreover have "sessionPlaying \<lparr> nextStartTimeRef := 5 \<rparr> \<noteq> sessionPlaying"
  proof
    assume "sessionPlaying \<lparr> nextStartTimeRef := 5 \<rparr> = sessionPlaying"
    then have "nextStartTimeRef (sessionPlaying \<lparr> nextStartTimeRef := 5 \<rparr>)
        = nextStartTimeRef sessionPlaying" by simp
    then show False by (simp add: sessionPlaying_fields)
  qed
  ultimately show ?thesis by (simp add: sessionPlaying_fields)
qed


section \<open>The cursor across the callbacks\<close>

lemma scheduleAudio_cursor_mono:
  "nextStartTimeRef s \<le> nextStartTimeRef (fst (scheduleAudio now p s))"
proof -
  have "nextStartTimeRef s \<le> max (nextStartTimeRef s) now + duration b" for b
    using duration_nonneg [of b] by linarith
  then show ?thesis
    by (simp add: scheduleAudio_def Let_def split: sum.splits)
qed

lemma handleInterrupted_flag:
  "handleInterrupted m s =
     (if interruptedFlag m
      then s \<lparr> effects := effects s @ map (\<lambda>source. SourceStop (node source)) (sourcesRef s),
               sourcesRef := [], nextStartTimeRef := 0 \<rparr>
      else s)"
  by (simp add: handleInterrupted_def interruptedFlag_def split: option.splits)

lemma onmessage_cursor_mono:
  assumes "\<not> interruptedFlag m"
  shows "nextStartTimeRef s \<le> nextStartTimeRef (fst (onmessage now m s))"
proof (cases "base64AudioOf m")
  case (Inl e)
  then show ?thesis by (simp add: onmessage_unfold Let_def text_steps_frame)
next
  case (Inr p)
  have "nextStartTimeRef s
      \<le> nextStartTimeRef (fst (scheduleAudio now p (handleTurnComplete m (handleTranscription m s))))"
    using scheduleAudio_cursor_mono [of "handleTurnComplete m (handleTranscription m s)" now p]
    by (simp add: text_steps_frame)
  with Inr assms show ?thesis
    by (simp add: onmessage_unfold Let_def handleInterrupted_flag split: option.splits)
qed

lemma onmessage_interrupted_cursor:
  assumes "interruptedFlag m" and "snd (onmessage now m s) = None"
  shows "nextStartTimeRef (fst (onmessage now m s)) = 0"
  using assms
  by (cases "base64AudioOf m")
     (simp_all add: onmessage_unfold Let_def handleInterrupted_flag split: option.splits)

lemma onmessage_scheduled_cursor:
  assumes "outputAudioContextRef s \<noteq> None" and "base64AudioOf m = Inr p"
    and "decodeInbound p = Inr b" and "\<not> interruptedFlag m"
  shows "nextStartTimeRef (fst (onmessage now m s)) = max (nextStartTimeRef s) now + duration b"
proof -
  let ?s1 = "handleTurnComplete m (handleTranscription m s)"
  have "outputAudioContextRef ?s1 \<noteq> None" using assms(1) by (simp add: text_steps_frame)
  from scheduleAudio_ok [OF assms(3) this, of now] assms(2,4) show ?thesis
    by (simp add: onmessage_unfold Let_def handleInterrupted_flag text_steps_frame)
qed

lemma other_callbacks_cursor:
  "nextStartTimeRef (stopSession a s) = nextStartTimeRef s"
  "nextStartTimeRef (onopen oenv s) = nextStartTimeRef s"
  "nextStartTimeRef (onended h s) = nextStartTimeRef s"
  "nextStartTimeRef (onaudioprocess inputData s) = nextStartTimeRef s"
  "nextStartTimeRef (onerror a msg s) = nextStartTimeRef s"
  "nextStartTimeRef (onclose a s) = nextStartTimeRef s"
  by (simp_all add: stopSession_def onopen_def onended_def onaudioprocess_def onerror_def
      onclose_def Let_def split: option.splits)

lemma startSession_cursor:
  "genAI env \<and> newOutputContext env \<noteq> None \<Longrightarrow> nextStartTimeRef (startSession env s) = 0"
  by (auto simp: startSession_def startFailed_def Let_def split: option.splits)

lemma flags:
  "\<not> interruptedFlag (audioDelta p)" "interruptedFlag interruptedMessage"
  by (simp_all add: interruptedFlag_def audioDelta_def interruptedMessage_def noContent_def)

text \<open>
  C5, as the code has it. When a message schedules a unit, the cursor afterwards is
  \<open>max cursor now\<close> plus exactly the unit's duration, and so at least the clock time read
  for that message. A message with the interrupted flag, handled without an exception,
  leaves the cursor at \<open>0\<close>; a message without the flag never lowers the cursor.
  \<^verbatim>\<open>startSession\<close>, once it has created the output context, sets the cursor to \<open>0\<close>.
  \<^verbatim>\<open>stopSession\<close> and the remaining callbacks leave the cursor as it is.
\<close>

theorem cursor_invariant:
  "(outputAudioContextRef s \<noteq> None \<and> base64AudioOf m = Inr p \<and> decodeInbound p = Inr b \<and>
      \<not> interruptedFlag m \<longrightarrow>
      nextStartTimeRef (fst (onmessage now m s)) = max (nextStartTimeRef s) now + duration b \<and>
      now \<le> nextStartTimeRef (fst (onmessage now m s))) \<and>
   (interruptedFlag m \<and> snd (onmessage now m s) = None \<longrightarrow>
      nextStartTimeRef (fst (onmessage now m s)) = 0) \<and>
   (\<not> interruptedFlag m \<longrightarrow>
      nextStartTimeRef s \<le> nextStartTimeRef (fst (onmessage now m s))) \<and>
   (genAI env \<and> newOutputContext env \<noteq> None \<longrightarrow> nextStartTimeRef (startSession env s) = 0) \<and>
   nextStartTimeRef (stopSession a s) = nextStartTimeRef s \<and>
   nextStartTimeRef (onopen oenv s) = nextStartTimeRef s \<and>
   nextStartTimeRef (onended h s) = nextStartTimeRef s \<and>
   nextStartTimeRef (onaudioprocess inputData s) = nextStartTimeRef s \<and>
   nextStartTimeRef (onerror a msg s) = nextStartTimeRef s \<and>
   nextStartTimeRef (onclose a s) = nextStartTimeRef s"
proof -
  have "now \<le> max (nextStartTimeRef s) now + duration b"
    using duration_nonneg [of b] by linarith
  then show ?thesis
    using onmessage_cursor_mono [of m s now] onmessage_interrupted_cursor [of m now s]
      onmessage_scheduled_cursor [of s m p b now] startSession_cursor [of env s]
    by (simp add: other_callbacks_cursor)
qed

theorem cursor_invariant_witness:
  "nextStartTimeRef (fst (onmessage 5 (audioDelta ''AIA='') sessionPlaying)) = 5 + 1 / 24000 \<and>
   5 \<le> nextStartTimeRef (fst (onmessage 5 (audioDelta ''AIA='') sessionPlaying)) \<and>
   nextStartTimeRef (fst (onmessage 5 interruptedMessage sessionPlaying)) = 0 \<and>
   nextStartTimeRef sessionPlaying
     \<le> nextStartTimeRef (fst (onmessage 5 (audioDelta ''!'') sessionPlaying)) \<and>
   nextStartTimeRef
     (startSession \<lparr> genAI = True, newOutputContext = Some 7, connect = Some 8 \<rparr> sessionPlaying)
     = 0"
proof -
  let ?b = "\<lparr> numberOfChannels = 1, frameCount = 1, sampleRate = 24000,
             channelData = [[- 1]] \<rparr>"
  let ?env = "\<lparr> genAI = True, newOutputContext = Some 7, connect = Some 8 \<rparr>"
  have none: "snd (onmessage 5 interruptedMessage sessionPlaying) = None"
    by (simp add: interrupted_only [OF interruptedMessage_fields])
  have "max (nextStartTimeRef sessionPlaying) 5 + duration ?b = 5 + 1 / 24000"
    by (simp add: sessionPlaying_fields duration_def)
  then show ?thesis
    using cursor_invariant [of sessionPlaying "audioDelta ''AIA=''" "''AIA=''" ?b 5 ?env]
      cursor_invariant [of sessionPlaying interruptedMessage "[]" ?b 5 ?env] none
      cursor_invariant [of sessionPlaying "audioDelta ''!''" "''!''" ?b 5 ?env]
    by (simp add: flags base64AudioOf_audioDelta decodeInbound_AIA sessionPlaying_fields)
qed

text \<open>
  The claim as stated fails three times over. After a barge-in handled at clock time \<open>5\<close>
  the cursor is \<open>0\<close>, below the clock; \<^verbatim>\<open>stopSession\<close> leaves a cursor of \<open>1/24000\<close>
  where it is; and \<^verbatim>\<open>startSession\<close>, which is neither barge-in nor stop, sets it to \<open>0\<close>.
\<close>

theorem cursor_invariant_counterexample:
  "nextStartTimeRef (fst (onmessage 5 interruptedMessage sessionPlaying)) < 5 \<and>
   nextStartTimeRef sessionPlaying = 1 / 24000 \<and>
   nextStartTimeRef (stopSession True sessionPlaying) = 1 / 24000 \<and>
   nextStartTimeRef
     (startSession \<lparr> genAI = True, newOutputContext = Some 7, connect = Some 8 \<rparr> sessionPlaying)
     = 0"
  by (simp add: interrupted_only [OF interruptedMessage_fields] other_callbacks_cursor
      startSession_cursor sessionPlaying_fields)

section \<open>Stopping a session\<close>

lemma released_stopSession:
  "a \<or> sessionPromiseRef s \<noteq> None \<Longrightarrow> released (stopSession a s)"
  by (auto simp: stopSession_def released_def)

lemma stopSession_released:
  assumes "released s"
  shows "effects (stopSession a s) = effects s" and "released (stopSession a s)"
  using assms by (auto simp: stopSession_def released_def release_def)

lemma stopSession_twice:
  assumes "a \<or> sessionPromiseRef s \<noteq> None"
  shows "stopSession a' (stopSession a s) = stopSession a s"
proof -
  have first: "stopSession a s =
      s \<lparr> effects := effects s
                   @ release SessionClose (sessionPromiseRef s)
                   @ release TracksStop (mediaStreamRef s)
                   @ release NodeDisconnect (scriptProcessorRef s)
                   @ release NodeDisconnect (mediaStreamSourceRef s)
                   @ release ContextClose (inputAudioContextRef s)
                   @ release ContextClose (outputAudioContextRef s)
                   @ map (\<lambda>source. SourceStop (node source)) (sourcesRef s),
               sessionPromiseRef := None, mediaStreamRef := None,
               scriptProcessorRef := None, mediaStreamSourceRef := None,
               inputAudioContextRef := None, outputAudioContextRef := None,
               sourcesRef := [],
               isSessionActive := False,
               status := ''Session stopped. Press Start to talk again.'' \<rparr>"
    using assms by (auto simp: stopSession_def)
  show ?thesis
    unfolding first by (simp add: stopSession_def release_def)
qed

lemma startSession_pending:
  "genAI env \<and> newOutputContext env \<noteq> None \<and> connect env \<noteq> None \<Longrightarrow>
   sessionPromiseRef (startSession env s) \<noteq> None"
  by (auto simp: startSession_def Let_def split: option.splits)

text \<open>
  C6. \<^verbatim>\<open>stopSession\<close> has no throwing path: every call it makes on a ref is guarded, so
  it is a total function of the state and of the \<open>isSessionActive\<close> its closure captured.
  When the captured flag is false and no session promise is pending, it changes nothing.
  Otherwise it leaves every handle null and the live set empty, and a second call right
  after it, whatever flag its closure captured, changes nothing more. On a state whose
  handles are all null it makes no call on any resource. A session that never finished
  connecting (\<^verbatim>\<open>startSession\<close> has run, \<^verbatim>\<open>onopen\<close> has not) is a case of the second.
\<close>

theorem stop_idempotent:
  "(\<not> a \<and> sessionPromiseRef s = None \<longrightarrow> stopSession a s = s) \<and>
   (a \<or> sessionPromiseRef s \<noteq> None \<longrightarrow>
      released (stopSession a s) \<and> stopSession a' (stopSession a s) = stopSession a s) \<and>
   (released s \<longrightarrow> effects (stopSession a s) = effects s \<and> released (stopSession a s)) \<and>
   (genAI env \<and> newOutputContext env \<noteq> None \<and> connect env \<noteq> None \<longrightarrow>
      released (stopSession a (startSession env s)) \<and>
      stopSession a' (stopSession a (startSession env s)) = stopSession a (startSession env s))"
proof -
  have "stopSession a s = s" if "\<not> a \<and> sessionPromiseRef s = None"
    using that by (simp add: stopSession_def)
  moreover have "released (stopSession a (startSession env s)) \<and>
      stopSession a' (stopSession a (startSession env s)) = stopSession a (startSession env s)"
    if "genAI env \<and> newOutputContext env \<noteq> None \<and> connect env \<noteq> None"
    using startSession_pending [OF that, of s]
    by (simp add: released_stopSession stopSession_twice)
  ultimately show ?thesis
    by (simp add: released_stopSession stopSession_twice stopSession_released)
qed


theorem stop_idempotent_witness:
  "stopSession False initialApp = initialApp \<and>
   released (stopSession True sessionPlaying) \<and>
   stopSession True (stopSession True sessionPlaying) = stopSession True sessionPlaying \<and>
   effects (stopSession True (stopSession True sessionPlaying))
     = effects (stopSession True sessionPlaying) \<and>
   released (stopSession False sessionConnecting) \<and>
   stopSession False (stopSession False sessionConnecting) = stopSession False sessionConnecting"
proof -
  let ?env = "\<lparr> genAI = True, newOutputContext = Some 1, connect = Some 2 \<rparr>"
  have idle: "sessionPromiseRef initialApp = None" by (simp add: initialApp_def)
  from stop_idempotent [of False initialApp False ?env]
       stop_idempotent [of True sessionPlaying True ?env]
       stop_idempotent [of True "stopSession True sessionPlaying" True ?env]
  show ?thesis
    by (simp add: idle sessionConnecting_def)
qed


end
